theory Spec2Isabelle
  imports Complex_Main "HOL-Library.Char_ord" "HOL-Library.List_Lexorder" "HOL-Library.Product_Lexorder"
begin

section \<open>JavaScript strings\<close>

text \<open>
  A JavaScript string is a sequence of UTF-16 code units. The currency symbols of the
  scraper lie outside ASCII (the euro sign is U+20AC), so a code unit is a natural number
  and not an 8-bit \<open>char\<close>. \<open>js\<close> embeds an ASCII literal.
\<close>

type_synonym code_unit = nat
type_synonym jsstring = "code_unit list"

definition js :: "string \<Rightarrow> jsstring" where
  "js s = map of_char s"

text \<open>White space and line terminators: what \<open>trim\<close> strips and what \<open>\s\<close> matches.\<close>

definition isWhiteSpace :: "code_unit \<Rightarrow> bool" where
  "isWhiteSpace c =
     (c = 9 \<or> c = 10 \<or> c = 11 \<or> c = 12 \<or> c = 13 \<or> c = 32 \<or> c = 160 \<or> c = 5760 \<or>
      (8192 \<le> c \<and> c \<le> 8202) \<or> c = 8232 \<or> c = 8233 \<or> c = 8239 \<or> c = 8287 \<or>
      c = 12288 \<or> c = 65279)"

text \<open>\<open>\d\<close> without the unicode flag: the ten ASCII digits.\<close>

definition isDigit :: "code_unit \<Rightarrow> bool" where
  "isDigit c = (48 \<le> c \<and> c \<le> 57)"

text \<open>The word characters that decide \<open>\b\<close>: letters, digits and the underscore.\<close>

definition isWordChar :: "code_unit \<Rightarrow> bool" where
  "isWordChar c = (isDigit c \<or> (65 \<le> c \<and> c \<le> 90) \<or> (97 \<le> c \<and> c \<le> 122) \<or> c = 95)"

definition trim :: "jsstring \<Rightarrow> jsstring" where
  "trim s = rev (dropWhile isWhiteSpace (rev (dropWhile isWhiteSpace s)))"

fun startsWith :: "jsstring \<Rightarrow> jsstring \<Rightarrow> bool" where
  "startsWith s [] = True"
| "startsWith [] (p # ps) = False"
| "startsWith (c # cs) (p # ps) = (c = p \<and> startsWith cs ps)"

text \<open>\<open>s.includes(pat)\<close>.\<close>

fun includes_str :: "jsstring \<Rightarrow> jsstring \<Rightarrow> bool" where
  "includes_str [] pat = (pat = [])"
| "includes_str (c # cs) pat = (startsWith (c # cs) pat \<or> includes_str cs pat)"

text \<open>\<open>s.replace(pat, rep)\<close> with a string pattern: only the first occurrence is replaced.\<close>

fun replace_str :: "jsstring \<Rightarrow> jsstring \<Rightarrow> jsstring \<Rightarrow> jsstring" where
  "replace_str [] pat rep = (if pat = [] then rep else [])"
| "replace_str (c # cs) pat rep =
     (if startsWith (c # cs) pat then rep @ drop (length pat) (c # cs)
      else c # replace_str cs pat rep)"

text \<open>\<open>s.replace(/c/g, rep)\<close> for a pattern of one literal character.\<close>

definition replace_all :: "jsstring \<Rightarrow> code_unit \<Rightarrow> jsstring \<Rightarrow> jsstring" where
  "replace_all s c rep = concat (map (\<lambda>x. if x = c then rep else [x]) s)"

text \<open>\<open>s.replace(/\s+/g, '')\<close>.\<close>

definition remove_spaces :: "jsstring \<Rightarrow> jsstring" where
  "remove_spaces s = filter (\<lambda>c. \<not> isWhiteSpace c) s"

text \<open>\<open>s.lastIndexOf(c)\<close> for one character: \<open>-1\<close> when it does not occur.\<close>

definition lastIndexOf :: "jsstring \<Rightarrow> code_unit \<Rightarrow> int" where
  "lastIndexOf s c =
     (if c \<in> set s then int (length s) - 1 - int (length (takeWhile (\<lambda>x. x \<noteq> c) (rev s)))
      else - 1)"

text \<open>
  \<open>toUpperCase\<close> and the canonical form used by a case-insensitive regular expression,
  on the ASCII letters. A code unit of 128 or more never canonicalises into ASCII, so for
  matching against the ASCII currency codes it stands for itself.
\<close>

definition toUpperUnit :: "code_unit \<Rightarrow> code_unit" where
  "toUpperUnit c = (if 97 \<le> c \<and> c \<le> 122 then c - 32 else c)"

definition toUpperCase :: "jsstring \<Rightarrow> jsstring" where
  "toUpperCase s = map toUpperUnit s"

section \<open>Numbers\<close>

text \<open>
  A price is the exact decimal value of the text that \<open>parseFloat\<close> reads; JavaScript
  stores the double nearest to it (\<open>Infinity\<close> beyond the range of doubles), and that
  rounding is not part of the model. \<open>None\<close> is \<open>NaN\<close>. \<open>parseFloat\<close> reads the longest prefix that is a decimal literal
  (digits, optionally a point and more digits, or a point and digits). Signs, exponents and
  \<open>Infinity\<close> are left out: the normalizers only pass it digits and points.
\<close>

definition digits_value :: "jsstring \<Rightarrow> nat" where
  "digits_value ds = foldl (\<lambda>a c. 10 * a + (c - 48)) 0 ds"

definition parseFloat :: "jsstring \<Rightarrow> rat option" where
  "parseFloat s =
     (let t = dropWhile isWhiteSpace s;
          ip = takeWhile isDigit t;
          r = dropWhile isDigit t;
          fp = (case r of [] \<Rightarrow> [] | c # r' \<Rightarrow> if c = 46 then takeWhile isDigit r' else [])
      in if ip = [] \<and> fp = [] then None
         else Some (of_nat (digits_value ip) + of_nat (digits_value fp) / 10 ^ length fp))"

section \<open>The normalizer: parsePriceString\<close>

record price_info =
  price :: "rat option"
  currency :: "jsstring option"

definition currencyPatterns :: "(jsstring \<times> jsstring) list" where
  "currencyPatterns =
     [([36], js ''USD''), ([8364], js ''EUR''), ([163], js ''GBP''),
      ([165], js ''JPY''), ([8377], js ''INR'')]"

text \<open>The loop over the symbol table: the first symbol that occurs wins and is removed once.\<close>

fun symbol_loop :: "(jsstring \<times> jsstring) list \<Rightarrow> jsstring \<Rightarrow> jsstring option \<times> jsstring" where
  "symbol_loop [] cleaned = (None, cleaned)"
| "symbol_loop ((symbol, code) # ps) cleaned =
     (if includes_str cleaned symbol then (Some code, trim (replace_str cleaned symbol []))
      else symbol_loop ps cleaned)"

definition currency_codes :: "jsstring list" where
  "currency_codes =
     [js ''USD'', js ''EUR'', js ''GBP'', js ''JPY'', js ''INR'', js ''CAD'', js ''AUD'']"

text \<open>
  \<open>/\b(USD|EUR|GBP|JPY|INR|CAD|AUD)\b/i\<close>. At one position the alternatives are tried
  in order; an alternative matches when the next three code units are its letters in
  either case and a word boundary follows. The boundary in front holds when the previous
  code unit is absent or not a word character. The search returns group 1 of the leftmost
  match.
\<close>

fun code_alternatives :: "jsstring list \<Rightarrow> jsstring \<Rightarrow> jsstring option" where
  "code_alternatives [] rest = None"
| "code_alternatives (code # codes) rest =
     (if length code \<le> length rest \<and> toUpperCase (take (length code) rest) = code \<and>
         (case drop (length code) rest of [] \<Rightarrow> True | n # _ \<Rightarrow> \<not> isWordChar n)
      then Some (take (length code) rest)
      else code_alternatives codes rest)"

fun code_search :: "code_unit option \<Rightarrow> jsstring \<Rightarrow> jsstring option" where
  "code_search prev [] = None"
| "code_search prev (c # cs) =
     (case (if (case prev of None \<Rightarrow> True | Some p \<Rightarrow> \<not> isWordChar p)
            then code_alternatives currency_codes (c # cs) else None) of
        Some m \<Rightarrow> Some m
      | None \<Rightarrow> code_search (Some c) cs)"

definition code_match :: "jsstring \<Rightarrow> jsstring option" where
  "code_match cleaned = code_search None cleaned"

text \<open>
  Currency detection as the source runs it: the symbol loop first, then the code check,
  which reads \<open>cleaned\<close> again and overwrites both \<open>currency\<close> and
  \<open>numberPart\<close> when it matches.
\<close>

definition detect_currency :: "jsstring \<Rightarrow> jsstring option \<times> jsstring" where
  "detect_currency cleaned =
     (case code_match cleaned of
        Some m \<Rightarrow> (Some (toUpperCase m), trim (replace_str cleaned m []))
      | None \<Rightarrow> symbol_loop currencyPatterns cleaned)"

text \<open>\<open>numberPart.match(/[\d,.\s]+/)\<close>: the leftmost maximal run of the class.\<close>

definition isNumberChar :: "code_unit \<Rightarrow> bool" where
  "isNumberChar c = (isDigit c \<or> c = 44 \<or> c = 46 \<or> isWhiteSpace c)"

definition number_match :: "jsstring \<Rightarrow> jsstring option" where
  "number_match numberPart =
     (case dropWhile (\<lambda>c. \<not> isNumberChar c) numberPart of
        [] \<Rightarrow> None
      | c # cs \<Rightarrow> Some (takeWhile isNumberChar (c # cs)))"

text \<open>The branch on the decimal separators of \<open>priceString_clean\<close>.\<close>

definition normalize_separators :: "jsstring \<Rightarrow> jsstring" where
  "normalize_separators s =
     (if includes_str s [46] \<and> includes_str s [44] then
        (if lastIndexOf s 46 > lastIndexOf s 44 then replace_all s 44 []
         else replace_all (replace_all s 46 []) 44 [46])
      else if includes_str s [44] then replace_all s 44 [46]
      else s)"

text \<open>\<open>currency || 'USD'\<close>: \<open>null\<close> and the empty string are both falsy.\<close>

definition or_USD :: "jsstring option \<Rightarrow> jsstring" where
  "or_USD cur = (case cur of None \<Rightarrow> js ''USD'' | Some c \<Rightarrow> if c = [] then js ''USD'' else c)"

text \<open>
  The numeric remainder: \<open>priceString_clean\<close> before the separators are decided, or
  \<open>None\<close> when \<open>numberMatch\<close> is \<open>null\<close>.
\<close>

definition numeric_remainder :: "jsstring \<Rightarrow> jsstring option" where
  "numeric_remainder priceString =
     (case number_match (snd (detect_currency (trim priceString))) of
        None \<Rightarrow> None
      | Some m \<Rightarrow> Some (remove_spaces (trim m)))"

definition parsePriceString :: "jsstring \<Rightarrow> price_info" where
  "parsePriceString priceString =
     (let cur = fst (detect_currency (trim priceString)) in
      case numeric_remainder priceString of
        None \<Rightarrow> \<lparr>price = None, currency = cur\<rparr>
      | Some priceString_clean \<Rightarrow>
          (case parseFloat (normalize_separators priceString_clean) of
             None \<Rightarrow> \<lparr>price = None, currency = cur\<rparr>
           | Some p \<Rightarrow> \<lparr>price = Some p, currency = Some (or_USD cur)\<rparr>))"

section \<open>The candidate extractor\<close>

text \<open>
  The parsed document is the HTML library's object; the extractor only asks it for the
  text of the first element a selector matches (\<open>None\<close> when nothing matches) and
  for the text of the body.
\<close>

record document =
  first_text :: "string \<Rightarrow> jsstring option"
  body_text :: jsstring

definition priceSelectors :: "string list" where
  \<open>priceSelectors =
     [''[data-price]'', ''.price'', ''[class*="price"]'', ''.total-price'', ''[class*="total"]'']\<close>

text \<open>
  The pattern of the free-text fallback: an optional currency symbol (one of the five of
  the symbol table), then \<open>\s*[\d,]+(?:[.,]\d{2})?\<close>, with the global flag.
  \<open>price_pattern_body\<close> is the
  length that \<open>\s*[\d,]+(?:[.,]\d{2})?\<close> matches at the start of a text: the greedy
  runs have no shorter alternative that succeeds, since white space, the digit-or-comma
  class and the point are disjoint.
\<close>

definition isCurrencySymbol :: "code_unit \<Rightarrow> bool" where
  "isCurrencySymbol c = (c = 36 \<or> c = 8364 \<or> c = 163 \<or> c = 165 \<or> c = 8377)"

definition isDigitOrComma :: "code_unit \<Rightarrow> bool" where
  "isDigitOrComma c = (isDigit c \<or> c = 44)"

definition price_pattern_body :: "jsstring \<Rightarrow> nat option" where
  "price_pattern_body t =
     (let ws = takeWhile isWhiteSpace t;
          r = dropWhile isWhiteSpace t;
          ds = takeWhile isDigitOrComma r;
          r2 = dropWhile isDigitOrComma r
      in if ds = [] then None
         else Some (length ws + length ds +
                (case r2 of
                   sep # d1 # d2 # _ \<Rightarrow>
                     if (sep = 46 \<or> sep = 44) \<and> isDigit d1 \<and> isDigit d2 then 3 else 0
                 | _ \<Rightarrow> 0)))"

definition price_pattern_at :: "jsstring \<Rightarrow> nat option" where
  "price_pattern_at t =
     (case t of
        [] \<Rightarrow> None
      | c # cs \<Rightarrow>
          if isCurrencySymbol c then map_option Suc (price_pattern_body cs)
          else price_pattern_body (c # cs))"

text \<open>
  \<open>text.match(pattern)\<close> with the global flag: every match, left to right, each search
  resuming where the last match ended (one code unit further after an empty match).
\<close>

function match_all :: "jsstring \<Rightarrow> jsstring list" where
  "match_all [] = []"
| "match_all (c # cs) =
     (case price_pattern_at (c # cs) of
        None \<Rightarrow> match_all cs
      | Some n \<Rightarrow> take n (c # cs) # match_all (drop (max n 1) (c # cs)))"
  by pat_completeness auto
termination
  by (relation "measure length") auto

fun first_positive :: "jsstring list \<Rightarrow> price_info option" where
  "first_positive [] = None"
| "first_positive (m # ms) =
     (let result = parsePriceString m in
      case price result of
        None \<Rightarrow> first_positive ms
      | Some p \<Rightarrow> if p > 0 then Some result else first_positive ms)"

definition extractPriceFromText :: "jsstring \<Rightarrow> price_info option" where
  "extractPriceFromText txt = first_positive (match_all txt)"

fun selector_loop :: "document \<Rightarrow> string list \<Rightarrow> price_info option" where
  "selector_loop doc [] = None"
| "selector_loop doc (selector # selectors) =
     (case first_text doc selector of
        None \<Rightarrow> selector_loop doc selectors
      | Some t \<Rightarrow>
          (let result = parsePriceString (trim t) in
           case (price result, currency result) of
             (Some p, Some c) \<Rightarrow> Some result
           | _ \<Rightarrow> selector_loop doc selectors))"

definition extractPriceInfo :: "document \<Rightarrow> price_info" where
  "extractPriceInfo doc =
     (case selector_loop doc priceSelectors of
        Some result \<Rightarrow> result
      | None \<Rightarrow>
          (case extractPriceFromText (body_text doc) of
             Some result \<Rightarrow> result
           | None \<Rightarrow> \<lparr>price = None, currency = None\<rparr>))"

section \<open>The earlier normalizer: extractPrice\<close>

text \<open>
  \<open>priceText.match(/([^\d]*)([\d,.]+)/)\<close>. Group 1 is greedy over non-digits, which
  include the comma and the point, so it gives code units back until group 2 finds one:
  \<open>price_groups k t\<close> tries group 1 of length \<open>k\<close>, then each shorter one.
\<close>

definition isPriceChar :: "code_unit \<Rightarrow> bool" where
  "isPriceChar c = (isDigit c \<or> c = 44 \<or> c = 46)"

fun price_groups :: "nat \<Rightarrow> jsstring \<Rightarrow> (jsstring \<times> jsstring) option" where
  "price_groups 0 t =
     (case takeWhile isPriceChar t of [] \<Rightarrow> None | c # cs \<Rightarrow> Some ([], c # cs))"
| "price_groups (Suc k) t =
     (case takeWhile isPriceChar (drop (Suc k) t) of
        [] \<Rightarrow> price_groups k t
      | c # cs \<Rightarrow> Some (take (Suc k) t, c # cs))"

fun price_regex :: "jsstring \<Rightarrow> (jsstring \<times> jsstring) option" where
  "price_regex [] = None"
| "price_regex (c # cs) =
     (case price_groups (length (takeWhile (\<lambda>x. \<not> isDigit x) (c # cs))) (c # cs) of
        Some g \<Rightarrow> Some g
      | None \<Rightarrow> price_regex cs)"

record price_currency =
  pc_price :: rat
  pc_currency :: jsstring

definition isSeparator :: "code_unit \<Rightarrow> bool" where
  "isSeparator c = (c = 44 \<or> c = 46)"

definition extractPrice :: "jsstring \<Rightarrow> price_currency" where
  "extractPrice priceText =
     (case price_regex priceText of
        None \<Rightarrow> \<lparr>pc_price = 0, pc_currency = js ''USD''\<rparr>
      | Some (g1, g2) \<Rightarrow>
          (let cur = (if trim g1 = [] then js ''USD'' else trim g1);
               parts = Suc (length (filter isSeparator g2));
               priceStr = concat (map (\<lambda>c. if isSeparator c
                                             then (if parts > 2 then [] else if c = 44 then [46] else [])
                                             else [c]) g2)
           in \<lparr>pc_price = (case parseFloat priceStr of None \<Rightarrow> 0 | Some p \<Rightarrow> p),
               pc_currency = cur\<rparr>))"

section \<open>Number to text\<close>

text \<open>The decimal digits of a natural number, as in template strings.\<close>

fun digits_of :: "nat \<Rightarrow> jsstring" where
  "digits_of n = (if n < 10 then [48 + n] else digits_of (n div 10) @ [48 + n mod 10])"

text \<open>
  \<open>x.toFixed(2)\<close> on the exact value: the integer \<open>n\<close> with \<open>n / 100\<close> nearest to
  the magnitude (the larger one on a tie), printed with two decimals, after a minus sign
  for a negative \<open>x\<close>. From \<open>10^21\<close> on \<open>toFixed\<close> switches to the exponent form of
  \<open>Number::toString\<close>, which this model does not cover: \<open>None\<close>.
\<close>

definition toFixed2 :: "rat \<Rightarrow> jsstring option" where
  "toFixed2 x =
     (if \<bar>x\<bar> \<ge> 10 ^ 21 then None
      else
        (let n = nat \<lfloor>\<bar>x\<bar> * 100 + 1 / 2\<rfloor>;
             body = digits_of (n div 100) @ [46, 48 + (n mod 100) div 10, 48 + n mod 10]
         in Some (if x < 0 then 45 # body else body)))"

section \<open>The retry orchestrators\<close>

text \<open>
  An error is its message. An operation is a step on the state of the outside world
  (browser, network): one invocation returns a value or an error, and the next state.
  Both loops return, besides the outcome and the final state, the number of times they
  invoked the operation. The delays between attempts and the log lines only take time and
  are left out. The bounds are attempt counts, so natural numbers.
\<close>

type_synonym error = jsstring
type_synonym ('s, 'a) operation = "'s \<Rightarrow> (error + 'a) \<times> 's"

function withRetry_loop ::
  "('s, 'a) operation \<Rightarrow> jsstring \<Rightarrow> nat \<Rightarrow> nat \<Rightarrow> error option \<Rightarrow> 's \<Rightarrow> nat \<Rightarrow> (error + 'a) \<times> 's \<times> nat" where
  "withRetry_loop fn operationName maxRetries attempt lastError s calls =
     (if attempt \<le> maxRetries then
        (case fn s of
           (Inr v, s') \<Rightarrow> (Inr v, s', Suc calls)
         | (Inl e, s') \<Rightarrow>
             withRetry_loop fn operationName maxRetries (Suc attempt) (Some e) s' (Suc calls))
      else
        (Inl (case lastError of
                Some e \<Rightarrow> e
              | None \<Rightarrow> operationName @ js '' failed after '' @ digits_of (maxRetries + 1) @
                          js '' attempts''),
         s, calls))"
  by pat_completeness auto
termination
  by (relation "measure (\<lambda>(fn, operationName, maxRetries, attempt, lastError, s, calls).
                           Suc maxRetries - attempt)") auto

definition withRetry ::
  "('s, 'a) operation \<Rightarrow> jsstring \<Rightarrow> nat \<Rightarrow> 's \<Rightarrow> (error + 'a) \<times> 's \<times> nat" where
  "withRetry fn operationName maxRetries s = withRetry_loop fn operationName maxRetries 0 None s 0"

function retryOperation_loop ::
  "('s, 'a) operation \<Rightarrow> jsstring \<Rightarrow> nat \<Rightarrow> nat \<Rightarrow> error option \<Rightarrow> 's \<Rightarrow> nat \<Rightarrow> (error + 'a) \<times> 's \<times> nat" where
  "retryOperation_loop operation operationName retryAttempts attempt lastError s calls =
     (if attempt \<le> retryAttempts then
        (case operation s of
           (Inr v, s') \<Rightarrow> (Inr v, s', Suc calls)
         | (Inl e, s') \<Rightarrow>
             retryOperation_loop operation operationName retryAttempts (Suc attempt) (Some e) s'
               (Suc calls))
      else
        (Inl (js ''Failed to complete '' @ operationName @ js '' after '' @
              digits_of retryAttempts @ js '' attempts: '' @
              (case lastError of Some e \<Rightarrow> e | None \<Rightarrow> js ''undefined'')),
         s, calls))"
  by pat_completeness auto
termination
  by (relation "measure (\<lambda>(operation, operationName, retryAttempts, attempt, lastError, s, calls).
                           Suc retryAttempts - attempt)") auto

definition retryOperation ::
  "('s, 'a) operation \<Rightarrow> jsstring \<Rightarrow> nat \<Rightarrow> 's \<Rightarrow> (error + 'a) \<times> 's \<times> nat" where
  "retryOperation operation operationName retryAttempts s =
     retryOperation_loop operation operationName retryAttempts 1 None s 0"

text \<open>
  What the retry property speaks of: \<open>fails_first fn k s\<close> is the state after \<open>k\<close>
  invocations that all failed, \<open>None\<close> when one of them succeeded.
\<close>

fun fails_first :: "('s, 'a) operation \<Rightarrow> nat \<Rightarrow> 's \<Rightarrow> 's option" where
  "fails_first fn 0 s = Some s"
| "fails_first fn (Suc k) s =
     (case fn s of (Inl e, s') \<Rightarrow> fails_first fn k s' | (Inr v, s') \<Rightarrow> None)"

section \<open>The separator rule in the specification's words\<close>



section \<open>The later scraper: single search and batch\<close>

record hotel_result =
  hr_hotelId :: jsstring
  hr_name :: jsstring
  hr_price :: rat
  hr_currency :: jsstring
  hr_checkIn :: jsstring
  hr_checkOut :: jsstring

definition nameSelectors :: "string list" where
  \<open>nameSelectors = [''h1[data-testid="hotel-name"]'', ''.hotel-name'', ''[class*="hotel-title"]'', ''h1'']\<close>

text \<open>\<open>$(selector).first().text().trim()\<close>: the empty string when nothing matches.\<close>

fun extractHotelName_loop :: "document \<Rightarrow> string list \<Rightarrow> jsstring option" where
  "extractHotelName_loop doc [] = None"
| "extractHotelName_loop doc (selector # selectors) =
     (let name = trim (case first_text doc selector of None \<Rightarrow> [] | Some t \<Rightarrow> t) in
      if name = [] then extractHotelName_loop doc selectors else Some name)"

definition extractHotelName :: "document \<Rightarrow> jsstring option" where
  "extractHotelName doc = extractHotelName_loop doc nameSelectors"

definition extractPrices ::
  "document \<Rightarrow> jsstring \<Rightarrow> jsstring \<Rightarrow> jsstring \<Rightarrow> error + hotel_result" where
  "extractPrices doc hotelId checkIn checkOut =
     (let name = (case extractHotelName doc of None \<Rightarrow> js ''Unknown Hotel'' | Some n \<Rightarrow> n);
          info = extractPriceInfo doc
      in case (price info, currency info) of
           (Some p, Some c) \<Rightarrow>
             Inr \<lparr>hr_hotelId = hotelId, hr_name = name, hr_price = p, hr_currency = c,
                  hr_checkIn = checkIn, hr_checkOut = checkOut\<rparr>
         | _ \<Rightarrow>
             Inl (js ''Failed to extract prices: '' @
                  js ''Unable to extract price information from HTML''))"

text \<open>
  The renderer is outside the repository: for a query (hotel id, check-in, check-out,
  guests) it opens a page, navigates, reads the content, parses it and closes the page.
  Any throw on the way, the missing browser included, is its error.
\<close>

type_synonym 's renderer = "jsstring \<Rightarrow> jsstring \<Rightarrow> jsstring \<Rightarrow> int \<Rightarrow> ('s, document) operation"

definition searchSingleHotel_attempt ::
  "'s renderer \<Rightarrow> jsstring \<Rightarrow> jsstring \<Rightarrow> jsstring \<Rightarrow> int \<Rightarrow> ('s, hotel_result) operation" where
  "searchSingleHotel_attempt render hotelId checkIn checkOut guests s =
     (case render hotelId checkIn checkOut guests s of
        (Inl e, s') \<Rightarrow> (Inl e, s')
      | (Inr doc, s') \<Rightarrow> (extractPrices doc hotelId checkIn checkOut, s'))"

definition searchSingleHotel ::
  "'s renderer \<Rightarrow> nat \<Rightarrow> jsstring \<Rightarrow> jsstring \<Rightarrow> jsstring \<Rightarrow> int \<Rightarrow> ('s, hotel_result) operation" where
  "searchSingleHotel render maxRetries hotelId checkIn checkOut guests s =
     (case withRetry (searchSingleHotel_attempt render hotelId checkIn checkOut guests)
             (js ''searchSingleHotel for hotel '' @ hotelId) maxRetries s of
        (outcome, s', calls) \<Rightarrow> (outcome, s'))"

text \<open>
  The loop of \<open>searchHotels\<close> with its two local arrays, \<open>results\<close> and
  \<open>errors\<close>. \<open>searchHotels\<close> returns \<open>results\<close>; \<open>errors\<close> only reaches the
  log, which \<open>searchHotels_errors\<close> stands for.
\<close>

fun searchHotels_loop ::
  "(jsstring \<Rightarrow> ('s, 'r) operation) \<Rightarrow> jsstring list \<Rightarrow> 'r list \<Rightarrow> (jsstring \<times> error) list \<Rightarrow> 's \<Rightarrow>
   ('r list \<times> (jsstring \<times> error) list) \<times> 's" where
  "searchHotels_loop search [] results errors s = ((results, errors), s)"
| "searchHotels_loop search (hotelId # hotelIds) results errors s =
     (case search hotelId s of
        (Inr result, s') \<Rightarrow> searchHotels_loop search hotelIds (results @ [result]) errors s'
      | (Inl e, s') \<Rightarrow> searchHotels_loop search hotelIds results (errors @ [(hotelId, e)]) s')"

definition searchHotels ::
  "'s renderer \<Rightarrow> nat \<Rightarrow> jsstring list \<Rightarrow> jsstring \<Rightarrow> jsstring \<Rightarrow> int \<Rightarrow> 's \<Rightarrow> hotel_result list \<times> 's" where
  "searchHotels render maxRetries hotelIds checkIn checkOut guests s =
     (case searchHotels_loop
             (\<lambda>hotelId. searchSingleHotel render maxRetries hotelId checkIn checkOut guests)
             hotelIds [] [] s of
        ((results, errors), s') \<Rightarrow> (results, s'))"

definition searchHotels_errors ::
  "'s renderer \<Rightarrow> nat \<Rightarrow> jsstring list \<Rightarrow> jsstring \<Rightarrow> jsstring \<Rightarrow> int \<Rightarrow> 's \<Rightarrow> (jsstring \<times> error) list" where
  "searchHotels_errors render maxRetries hotelIds checkIn checkOut guests s =
     snd (fst (searchHotels_loop
             (\<lambda>hotelId. searchSingleHotel render maxRetries hotelId checkIn checkOut guests)
             hotelIds [] [] s))"

section \<open>The earlier scraper: single search and batch\<close>

text \<open>
  What the earlier scraper reads from the first hotel card of the page. The rating is the
  parsed number (\<open>None\<close> for \<open>null\<close>).
\<close>

record hotel_card =
  card_hotel_id :: "jsstring option"
  card_name :: jsstring
  card_price :: jsstring
  card_rating :: "rat option"
  card_image :: "jsstring option"
  card_href :: "jsstring option"

record search_result =
  sr_hotelId :: jsstring
  sr_hotelName :: jsstring
  sr_price :: rat
  sr_currency :: jsstring
  sr_checkIn :: jsstring
  sr_checkOut :: jsstring
  sr_rating :: "rat option"
  sr_image :: "jsstring option"
  sr_url :: jsstring

text \<open>
  The world outside the repository, on a state \<open>'s\<close>: the browser page (launching it,
  navigating to the search for a hotel name and two dates, waiting for the result
  selector, reading the first hotel card of the content), the clock behind \<open>Date.now()\<close>,
  and \<open>new Date(text).getTime()\<close> with \<open>None\<close> for \<open>NaN\<close>.
\<close>

record 's world =
  launch :: "('s, unit) operation"
  goto :: "jsstring \<Rightarrow> jsstring \<Rightarrow> jsstring \<Rightarrow> ('s, unit) operation"
  waitForSelector :: "('s, unit) operation"
  first_card :: "('s, hotel_card option) operation"
  now :: "'s \<Rightarrow> nat"
  date_ms :: "jsstring \<Rightarrow> int option"

definition WEBBEDS_BASE_URL :: jsstring where
  "WEBBEDS_BASE_URL = js ''https://www.webbeds.com''"

definition card_result :: "nat \<Rightarrow> hotel_card \<Rightarrow> jsstring \<Rightarrow> jsstring \<Rightarrow> jsstring \<Rightarrow> search_result" where
  "card_result clock hc hotelName checkInDate checkOutDate =
     (let name = trim (card_name hc);
          pc = extractPrice (trim (card_price hc))
      in \<lparr>sr_hotelId = (case card_hotel_id hc of
                           None \<Rightarrow> js ''hotel_'' @ digits_of clock
                         | Some i \<Rightarrow> if i = [] then js ''hotel_'' @ digits_of clock else i),
          sr_hotelName = (if name = [] then hotelName else name),
          sr_price = pc_price pc,
          sr_currency = pc_currency pc,
          sr_checkIn = checkInDate,
          sr_checkOut = checkOutDate,
          sr_rating = card_rating hc,
          sr_image = card_image hc,
          sr_url = WEBBEDS_BASE_URL @ (case card_href hc of None \<Rightarrow> [] | Some h \<Rightarrow> h)\<rparr>)"

definition search_failed :: "jsstring \<Rightarrow> error \<Rightarrow> error" where
  "search_failed hotelName e = js ''Failed to search hotel '' @ hotelName @ js '': '' @ e"

definition searchHotelPrices ::
  "'s world \<Rightarrow> nat \<Rightarrow> bool \<Rightarrow> jsstring \<Rightarrow> jsstring \<Rightarrow> jsstring \<Rightarrow> ('s, search_result option) operation" where
  "searchHotelPrices w retryAttempts page hotelName checkInDate checkOutDate s =
     (if page then
        (case retryOperation (goto w hotelName checkInDate checkOutDate)
                (js ''navigate to '' @ hotelName @ js '' search'') retryAttempts s of
           (Inl e, s1, calls1) \<Rightarrow> (Inl (search_failed hotelName e), s1)
         | (Inr u, s1, calls1) \<Rightarrow>
             (case retryOperation (waitForSelector w)
                     (js ''wait for hotel results for '' @ hotelName) retryAttempts s1 of
                (Inl e, s2, calls2) \<Rightarrow> (Inl (search_failed hotelName e), s2)
              | (Inr u2, s2, calls2) \<Rightarrow>
                  (case first_card w s2 of
                     (Inl e, s3) \<Rightarrow> (Inl (search_failed hotelName e), s3)
                   | (Inr None, s3) \<Rightarrow> (Inr None, s3)
                   | (Inr (Some hc), s3) \<Rightarrow>
                       (Inr (Some (card_result (now w s3) hc hotelName checkInDate checkOutDate)),
                        s3))))
      else (Inl (js ''Scraper not initialized. Call initialize() first.''), s))"

text \<open>\<open>/^\d{4}-\d{2}-\d{2}$/\<close> and a date that is not \<open>NaN\<close>.\<close>

definition date_shape :: "jsstring \<Rightarrow> bool" where
  "date_shape t =
     (length t = 10 \<and> list_all isDigit (take 4 t) \<and> t ! 4 = 45 \<and>
      list_all isDigit (take 2 (drop 5 t)) \<and> t ! 7 = 45 \<and> list_all isDigit (drop 8 t))"

definition isValidDateFormat :: "'s world \<Rightarrow> jsstring \<Rightarrow> bool" where
  "isValidDateFormat w dateString =
     (if date_shape dateString then (case date_ms w dateString of None \<Rightarrow> False | Some t \<Rightarrow> True)
      else False)"

text \<open>\<open>new Date(a) >= new Date(b)\<close>: false as soon as one side is \<open>NaN\<close>.\<close>

definition date_ge :: "'s world \<Rightarrow> jsstring \<Rightarrow> jsstring \<Rightarrow> bool" where
  "date_ge w a b =
     (case (date_ms w a, date_ms w b) of (Some x, Some y) \<Rightarrow> x \<ge> y | _ \<Rightarrow> False)"

fun searchMultipleHotels_loop ::
  "'s world \<Rightarrow> nat \<Rightarrow> jsstring list \<Rightarrow> jsstring \<Rightarrow> jsstring \<Rightarrow> search_result list \<Rightarrow> 's \<Rightarrow>
   search_result list \<times> 's" where
  "searchMultipleHotels_loop w retryAttempts [] checkInDate checkOutDate results s = (results, s)"
| "searchMultipleHotels_loop w retryAttempts (hotelName # hotelNames) checkInDate checkOutDate results s =
     (case searchHotelPrices w retryAttempts True hotelName checkInDate checkOutDate s of
        (Inr (Some result), s') \<Rightarrow>
          searchMultipleHotels_loop w retryAttempts hotelNames checkInDate checkOutDate
            (results @ [result]) s'
      | (Inr None, s') \<Rightarrow>
          searchMultipleHotels_loop w retryAttempts hotelNames checkInDate checkOutDate results s'
      | (Inl e, s') \<Rightarrow>
          searchMultipleHotels_loop w retryAttempts hotelNames checkInDate checkOutDate results s')"

definition searchMultipleHotels ::
  "'s world \<Rightarrow> nat \<Rightarrow> bool \<Rightarrow> jsstring list \<Rightarrow> jsstring \<Rightarrow> jsstring \<Rightarrow> ('s, search_result list) operation" where
  "searchMultipleHotels w retryAttempts page hotelNames checkInDate checkOutDate s =
     (if page then
        (if hotelNames = [] then (Inl (js ''hotelNames must be a non-empty array''), s)
         else if isValidDateFormat w checkInDate \<and> isValidDateFormat w checkOutDate then
           (if date_ge w checkInDate checkOutDate
            then (Inl (js ''Check-in date must be before check-out date''), s)
            else (case searchMultipleHotels_loop w retryAttempts hotelNames checkInDate
                         checkOutDate [] s of
                    (results, s') \<Rightarrow> (Inr results, s')))
         else (Inl (js ''Invalid date format. Use YYYY-MM-DD''), s))
      else (Inl (js ''Scraper not initialized. Call initialize() first.''), s))"

section \<open>A batch, hotel by hotel\<close>

text \<open>
  What a batch that never aborts amounts to: every hotel of the list is searched, in
  order, each search starting in the state the previous one left. \<open>batch_outcomes\<close>
  lists each hotel with the outcome of its search, \<open>batch_final\<close> is the state after
  the last one. \<open>successes\<close> and \<open>failures\<close> split the outcomes; \<open>found\<close>
  keeps the results of the searches that returned a hotel.
\<close>

fun batch_outcomes ::
  "(jsstring \<Rightarrow> ('s, 'r) operation) \<Rightarrow> jsstring list \<Rightarrow> 's \<Rightarrow> (jsstring \<times> (error + 'r)) list" where
  "batch_outcomes search [] s = []"
| "batch_outcomes search (h # hs) s =
     (h, fst (search h s)) # batch_outcomes search hs (snd (search h s))"

fun batch_final :: "(jsstring \<Rightarrow> ('s, 'r) operation) \<Rightarrow> jsstring list \<Rightarrow> 's \<Rightarrow> 's" where
  "batch_final search [] s = s"
| "batch_final search (h # hs) s = batch_final search hs (snd (search h s))"

definition successes :: "(jsstring \<times> (error + 'r)) list \<Rightarrow> 'r list" where
  "successes outcomes =
     concat (map (\<lambda>ho. case snd ho of Inl e \<Rightarrow> [] | Inr r \<Rightarrow> [r]) outcomes)"

definition failures :: "(jsstring \<times> (error + 'r)) list \<Rightarrow> (jsstring \<times> error) list" where
  "failures outcomes =
     concat (map (\<lambda>ho. case snd ho of Inl e \<Rightarrow> [(fst ho, e)] | Inr r \<Rightarrow> []) outcomes)"

definition found :: "(jsstring \<times> (error + 'r option)) list \<Rightarrow> 'r list" where
  "found outcomes =
     concat (map (\<lambda>ho. case snd ho of Inl e \<Rightarrow> [] | Inr None \<Rightarrow> [] | Inr (Some r) \<Rightarrow> [r])
                 outcomes)"

section \<open>The database layer\<close>

text \<open>
  The two tables. \<open>recorded_at\<close> is the timestamp column; its text form has a fixed
  width, so its order is the order of the instants, a natural number here.
\<close>

record hotel_row =
  h_id :: jsstring
  h_hotel_id :: jsstring
  h_name :: jsstring

record hotel_price_row =
  p_id :: jsstring
  p_hotel_id :: jsstring
  p_price :: rat
  p_currency :: jsstring
  p_check_in_date :: jsstring
  p_check_out_date :: jsstring
  p_recorded_at :: nat

record database =
  hotels :: "hotel_row list"
  hotel_prices :: "hotel_price_row list"

text \<open>
  The values that \<open>saveHotelPrice\<close> hands to its \<open>INSERT\<close> at clock reading
  \<open>clock\<close> (\<open>Date.now()\<close>): six columns. The statement names no
  \<open>recorded_at\<close>; that column is filled by the engine.
\<close>

record price_values =
  v_id :: jsstring
  v_hotel_id :: jsstring
  v_price :: rat
  v_currency :: jsstring
  v_check_in_date :: jsstring
  v_check_out_date :: jsstring

definition price_row :: "nat \<Rightarrow> search_result \<Rightarrow> price_values" where
  "price_row clock result =
     \<lparr>v_id = js ''price_'' @ digits_of clock, v_hotel_id = sr_hotelId result,
      v_price = sr_price result, v_currency = sr_currency result,
      v_check_in_date = sr_checkIn result, v_check_out_date = sr_checkOut result\<rparr>"

text \<open>
  The \<open>INSERT\<close> is run by the database engine, which is outside the repository: it
  returns the new tables or fails and changes nothing. \<open>sqlite_insert\<close> is the engine as
  far as the schema tells: the primary key of \<open>hotel_prices\<close> must be new, and
  \<open>recorded_at\<close> defaults to the engine's \<open>CURRENT_TIMESTAMP\<close>.
\<close>

type_synonym insert_engine = "price_values \<Rightarrow> database \<Rightarrow> error + database"

definition sqlite_insert :: "nat \<Rightarrow> insert_engine" where
  "sqlite_insert current_timestamp v d =
     (if v_id v \<in> set (map p_id (hotel_prices d))
      then Inl (js ''SQLITE_CONSTRAINT: UNIQUE constraint failed: hotel_prices.id'')
      else Inr (d\<lparr>hotel_prices := hotel_prices d @
                    [\<lparr>p_id = v_id v, p_hotel_id = v_hotel_id v, p_price = v_price v,
                      p_currency = v_currency v, p_check_in_date = v_check_in_date v,
                      p_check_out_date = v_check_out_date v,
                      p_recorded_at = current_timestamp\<rparr>]\<rparr>))"

text \<open>
  \<open>saveHotelPrice\<close> on the connection \<open>db\<close> (\<open>None\<close> before \<open>initialize\<close>). It
  returns the connection and the warnings it wrote to the console, or throws.
\<close>

definition saveHotelPrice ::
  "insert_engine \<Rightarrow> nat \<Rightarrow> database option \<Rightarrow> search_result \<Rightarrow> error + database option \<times> jsstring list" where
  "saveHotelPrice run clock db result =
     (case db of
        None \<Rightarrow> Inl (js ''Database not initialized'')
      | Some d \<Rightarrow>
          (case run (price_row clock result) d of
             Inr d' \<Rightarrow> Inr (Some d', [])
           | Inl e \<Rightarrow> Inr (Some d, [js ''Failed to save hotel price: '' @ e])))"


subsection \<open>comparePrices\<close>

text \<open>
  The query, read as SQL: every hotel joined with its prices (one row with \<open>NULL\<close>
  price columns for a hotel without prices), then the \<open>WHERE\<close> clause on the price
  columns when both dates are given (a \<open>NULL\<close> column never equals a value), then the
  order by name and by \<open>recorded_at\<close> descending, where \<open>NULL\<close> comes last. Rows that
  tie keep the order of the join. The \<open>ROW_NUMBER\<close> column is never read.
\<close>

type_synonym joined_row = "hotel_row \<times> hotel_price_row option"

definition left_join :: "database \<Rightarrow> joined_row list" where
  "left_join d =
     concat (map (\<lambda>h. case filter (\<lambda>p. p_hotel_id p = h_hotel_id h) (hotel_prices d) of
                         [] \<Rightarrow> [(h, None)]
                       | p # ps \<Rightarrow> map (\<lambda>q. (h, Some q)) (p # ps))
                 (hotels d))"

definition where_dates :: "jsstring \<Rightarrow> jsstring \<Rightarrow> joined_row list \<Rightarrow> joined_row list" where
  "where_dates checkInDate checkOutDate rows =
     filter (\<lambda>row. case snd row of
                      None \<Rightarrow> False
                    | Some p \<Rightarrow> p_check_in_date p = checkInDate \<and> p_check_out_date p = checkOutDate)
            rows"

definition order_key :: "joined_row \<Rightarrow> jsstring \<times> int" where
  "order_key row =
     (h_name (fst row), case snd row of None \<Rightarrow> 1 | Some p \<Rightarrow> - int (p_recorded_at p))"

text \<open>\<open>checkInDate && checkOutDate\<close>: both present and not empty.\<close>

definition truthy :: "jsstring option \<Rightarrow> bool" where
  "truthy v = (case v of None \<Rightarrow> False | Some t \<Rightarrow> t \<noteq> [])"

definition compare_query :: "database \<Rightarrow> jsstring option \<Rightarrow> jsstring option \<Rightarrow> joined_row list" where
  "compare_query d checkInDate checkOutDate =
     sort_key order_key
       (if truthy checkInDate \<and> truthy checkOutDate
        then where_dates (the checkInDate) (the checkOutDate) (left_join d)
        else left_join d)"

record comparison_entry =
  ce_id :: jsstring
  ce_hotelId :: jsstring
  ce_name :: jsstring
  ce_latestPrice :: "rat option"
  ce_currency :: "jsstring option"
  ce_lastUpdated :: "nat option"

definition entry_of :: "joined_row \<Rightarrow> comparison_entry" where
  "entry_of row =
     \<lparr>ce_id = h_id (fst row), ce_hotelId = h_hotel_id (fst row), ce_name = h_name (fst row),
      ce_latestPrice = map_option p_price (snd row),
      ce_currency = map_option p_currency (snd row),
      ce_lastUpdated = map_option p_recorded_at (snd row)\<rparr>"

text \<open>The \<open>Map\<close> keyed by hotel id: the first row of each hotel, in order of insertion.\<close>

fun build_comparison :: "joined_row list \<Rightarrow> comparison_entry list \<Rightarrow> comparison_entry list" where
  "build_comparison [] comparison = comparison"
| "build_comparison (row # rows) comparison =
     (if h_id (fst row) \<in> set (map ce_id comparison) then build_comparison rows comparison
      else build_comparison rows (comparison @ [entry_of row]))"

definition compare_latest :: "comparison_entry \<Rightarrow> comparison_entry \<Rightarrow> rat" where
  "compare_latest a b =
     (case ce_latestPrice a of
        None \<Rightarrow> 1
      | Some x \<Rightarrow> (case ce_latestPrice b of None \<Rightarrow> - 1 | Some y \<Rightarrow> x - y))"

text \<open>
  \<open>Array.prototype.sort\<close> belongs to the engine. It is modelled as the stable insertion
  sort that the sign of the comparator drives: an element goes in front of the first
  element it compares below.
\<close>

fun sort_insert :: "('a \<Rightarrow> 'a \<Rightarrow> rat) \<Rightarrow> 'a \<Rightarrow> 'a list \<Rightarrow> 'a list" where
  "sort_insert cmp x [] = [x]"
| "sort_insert cmp x (y # ys) = (if cmp x y < 0 then x # y # ys else y # sort_insert cmp x ys)"

definition array_sort :: "('a \<Rightarrow> 'a \<Rightarrow> rat) \<Rightarrow> 'a list \<Rightarrow> 'a list" where
  "array_sort cmp xs = foldl (\<lambda>sorted x. sort_insert cmp x sorted) [] xs"

definition comparePrices ::
  "database option \<Rightarrow> jsstring option \<Rightarrow> jsstring option \<Rightarrow> error + comparison_entry list" where
  "comparePrices db checkInDate checkOutDate =
     (case db of
        None \<Rightarrow> Inl (js ''Database not initialized'')
      | Some d \<Rightarrow>
          Inr (array_sort compare_latest
                 (build_comparison (compare_query d checkInDate checkOutDate) [])))"

text \<open>
  The order that the comparison is meant to have: a hotel with an observation comes before
  every hotel without one, and observed prices do not decrease.
\<close>

definition listed_before :: "comparison_entry \<Rightarrow> comparison_entry \<Rightarrow> bool" where
  "listed_before a b =
     (case ce_latestPrice a of
        None \<Rightarrow> (case ce_latestPrice b of None \<Rightarrow> True | Some y \<Rightarrow> False)
      | Some x \<Rightarrow> (case ce_latestPrice b of None \<Rightarrow> True | Some y \<Rightarrow> x \<le> y))"

section \<open>The routes that persist\<close>

text \<open>
  The server: the database connection, whether the scraper has its page, and the state of
  the world outside. A handler returns the HTTP status and the server after it. The
  scraper of the routes is configured with three retry attempts.
\<close>

record 's server =
  db :: "database option"
  initialized :: bool
  outside :: 's







section \<open>Concrete inputs\<close>

text \<open>
  Two operations on a call counter: \<open>flaky\<close> times out on its first two invocations
  and then returns, \<open>broken\<close> times out every time.
\<close>

definition flaky :: "(nat, nat) operation" where
  "flaky n = (if n < 2 then Inl (js ''timeout'') else Inr (n * 10), Suc n)"

definition broken :: "(nat, nat) operation" where
  "broken n = (Inl (js ''timeout''), Suc n)"

text \<open>
  A page whose \<open>[data-price]\<close> element reads \<open>0\<close>, while its body text holds a real
  price.
\<close>

definition zero_price_page :: document where
  "zero_price_page =
     \<lparr>first_text = (\<lambda>selector. if selector = ''[data-price]'' then Some (js ''0'') else None),
      body_text = js ''Rooms from $ 120 per night''\<rparr>"

text \<open>A page with a name and a price, and a renderer that times out for hotel 22074.\<close>

definition price_page :: document where
  "price_page =
     \<lparr>first_text = (\<lambda>selector. if selector = ''.price'' then Some (js ''USD 250.00'')
                                else if selector = ''h1'' then Some (js ''Voco Makkah'')
                                else None),
      body_text = []\<rparr>"

definition demo_render :: "nat renderer" where
  "demo_render hotelId checkIn checkOut guests s =
     (if hotelId = js ''22074'' then Inl (js ''Navigation timeout'') else Inr price_page, Suc s)"

text \<open>
  A world whose page shows one hotel card, where the navigation for the Elaf Ajyad Hotel
  times out, with a clock that starts at 1000 and advances with every navigation, and the
  two dates of the examples.
\<close>

definition demo_card :: hotel_card where
  "demo_card =
     \<lparr>card_hotel_id = Some (js ''2548785''), card_name = js ''Voco Makkah'',
      card_price = js ''USD 250'', card_rating = None, card_image = None, card_href = None\<rparr>"

definition demo_world :: "nat world" where
  "demo_world =
     \<lparr>launch = (\<lambda>s. (Inr (), s)),
      goto = (\<lambda>hotelName checkInDate checkOutDate s.
                (if hotelName = js ''Elaf Ajyad Hotel'' then Inl (js ''Navigation timeout'')
                 else Inr (), Suc s)),
      waitForSelector = (\<lambda>s. (Inr (), s)),
      first_card = (\<lambda>s. (Inr (Some demo_card), s)),
      now = (\<lambda>s. 1000 + s),
      date_ms = (\<lambda>t. if t = js ''2024-12-25'' then Some 1735084800000
                       else if t = js ''2024-12-26'' then Some 1735171200000 else None)\<rparr>"

definition voco :: hotel_row where
  "voco = \<lparr>h_id = js ''hotel_2548785'', h_hotel_id = js ''2548785'', h_name = js ''Voco Makkah''\<rparr>"

definition elaf :: hotel_row where
  "elaf = \<lparr>h_id = js ''hotel_22074'', h_hotel_id = js ''22074'', h_name = js ''Elaf Ajyad Hotel''\<rparr>"

definition voco_price :: hotel_price_row where
  "voco_price =
     \<lparr>p_id = js ''price_1001'', p_hotel_id = js ''2548785'', p_price = 250,
      p_currency = js ''USD'', p_check_in_date = js ''2024-12-25'',
      p_check_out_date = js ''2024-12-26'', p_recorded_at = 1001\<rparr>"

definition empty_store :: database where
  "empty_store = \<lparr>hotels = [voco], hotel_prices = []\<rparr>"

definition two_hotels :: database where
  "two_hotels = \<lparr>hotels = [voco, elaf], hotel_prices = [voco_price]\<rparr>"


definition voco_result :: search_result where
  "voco_result =
     \<lparr>sr_hotelId = js ''2548785'', sr_hotelName = js ''Voco Makkah'', sr_price = 250,
      sr_currency = js ''USD'', sr_checkIn = js ''2024-12-25'', sr_checkOut = js ''2024-12-26'',
      sr_rating = None, sr_image = None, sr_url = js ''https://www.webbeds.com''\<rparr>"

section \<open>Properties of the normalizer\<close>

lemmas ev = js_def isWhiteSpace_def isDigit_def isWordChar_def trim_def replace_all_def
  remove_spaces_def lastIndexOf_def toUpperUnit_def toUpperCase_def digits_value_def
  parseFloat_def currencyPatterns_def currency_codes_def code_match_def detect_currency_def
  isNumberChar_def number_match_def normalize_separators_def or_USD_def
  numeric_remainder_def parsePriceString_def Let_def

lemma includes_str_single: "includes_str s [c] = (c \<in> set s)"
  by (induction s) auto











subsection \<open>Currency detection\<close>

lemma code_alternatives_in:
  "code_alternatives codes rest = Some m \<Longrightarrow> toUpperCase m \<in> set codes"
  by (induction codes) (auto split: if_splits)

lemma code_search_in:
  "code_search prev s = Some m \<Longrightarrow> toUpperCase m \<in> set currency_codes"
proof (induction s arbitrary: prev)
  case Nil
  then show ?case by simp
next
  case (Cons c cs)
  then show ?case
    by (auto split: option.splits if_splits dest: code_alternatives_in)
qed

lemma currency_codes_nonempty: "c \<in> set currency_codes \<Longrightarrow> c \<noteq> []"
  by (auto simp: currency_codes_def js_def)

lemma or_USD_code: "c \<in> set currency_codes \<Longrightarrow> or_USD (Some c) = c"
  by (simp add: or_USD_def currency_codes_nonempty)

lemma currency_parsePriceString:
  "currency (parsePriceString s) =
     (case price (parsePriceString s) of
        None \<Rightarrow> fst (detect_currency (trim s))
      | Some p \<Rightarrow> Some (or_USD (fst (detect_currency (trim s)))))"
  by (simp add: parsePriceString_def Let_def split: option.splits)

lemma detect_currency_code:
  "code_match cleaned = Some m \<Longrightarrow> fst (detect_currency cleaned) = Some (toUpperCase m)"
  by (simp add: detect_currency_def)

text \<open>
  C2, as amended. When the text holds both a currency symbol of the table and a whole-word
  currency code, the reported currency is the code (in upper case), not the currency of
  the symbol: the code check runs after the symbol loop and overwrites its result.
\<close>

theorem code_overrides_symbol:
  "fst (symbol_loop currencyPatterns (trim s)) = Some sc \<Longrightarrow> code_match (trim s) = Some m \<Longrightarrow>
   currency (parsePriceString s) = Some (toUpperCase m) \<and> toUpperCase m \<in> set currency_codes"
proof -
  assume m: "code_match (trim s) = Some m"
  then have inc: "toUpperCase m \<in> set currency_codes"
    unfolding code_match_def by (rule code_search_in)
  from m have "fst (detect_currency (trim s)) = Some (toUpperCase m)"
    by (rule detect_currency_code)
  then have "currency (parsePriceString s) = Some (toUpperCase m)"
    using inc by (simp add: currency_parsePriceString or_USD_code split: option.splits)
  with inc show ?thesis by simp
qed

theorem code_overrides_symbol_witness:
  "fst (symbol_loop currencyPatterns (trim (js ''$100 EUR''))) = Some (js ''USD'') \<and>
   code_match (trim (js ''$100 EUR'')) = Some (js ''EUR'') \<and>
   currency (parsePriceString (js ''$100 EUR'')) = Some (js ''EUR'') \<and>
   js ''EUR'' \<in> set currency_codes"
proof -
  have a: "fst (symbol_loop currencyPatterns (trim (js ''$100 EUR''))) = Some (js ''USD'')"
    by (simp add: ev)
  have b: "code_match (trim (js ''$100 EUR'')) = Some (js ''EUR'')"
    by (simp add: ev)
  have c: "toUpperCase (js ''EUR'') = js ''EUR''" by (simp add: ev)
  from code_overrides_symbol [OF a b] a b c show ?thesis by simp
qed

text \<open>
  C2 as stated fails: \<open>$100 EUR\<close> holds the dollar sign and the code EUR, and the
  result is 100 EUR, not USD.
\<close>

theorem symbol_precedence_counterexample:
  "includes_str (js ''$100 EUR'') [36] \<and>
   fst (symbol_loop currencyPatterns (trim (js ''$100 EUR''))) = Some (js ''USD'') \<and>
   code_match (trim (js ''$100 EUR'')) = Some (js ''EUR'') \<and>
   parsePriceString (js ''$100 EUR'') = \<lparr>price = Some 100, currency = Some (js ''EUR'')\<rparr> \<and>
   currency (parsePriceString (js ''$100 EUR'')) \<noteq> Some (js ''USD'')"
  by (simp add: ev)

subsection \<open>Unparseable input\<close>

lemma set_trim: "set (trim s) \<subseteq> set s"
proof -
  have "set (trim s) \<subseteq> set (rev (dropWhile isWhiteSpace s))"
    unfolding trim_def using set_dropWhileD by fastforce
  also have "\<dots> \<subseteq> set s" using set_dropWhileD by fastforce
  finally show ?thesis .
qed

lemma set_replace_str: "set (replace_str s pat []) \<subseteq> set s"
proof (induction s)
  case Nil
  then show ?case by simp
next
  case (Cons c cs)
  have "set (drop (length pat) (c # cs)) \<subseteq> set (c # cs)" by (rule set_drop_subset)
  with Cons show ?case by auto
qed

lemma set_symbol_loop: "set (snd (symbol_loop ps cleaned)) \<subseteq> set cleaned"
proof (induction ps)
  case Nil
  then show ?case by simp
next
  case (Cons p ps)
  obtain symbol code where p: "p = (symbol, code)" by (cases p)
  have "set (trim (replace_str cleaned symbol [])) \<subseteq> set cleaned"
    using set_trim set_replace_str by blast
  with Cons p show ?case by simp
qed

lemma set_detect_currency: "set (snd (detect_currency cleaned)) \<subseteq> set cleaned"
proof (cases "code_match cleaned")
  case None
  then show ?thesis by (simp add: detect_currency_def set_symbol_loop)
next
  case (Some m)
  have "set (trim (replace_str cleaned m [])) \<subseteq> set cleaned"
    using set_trim set_replace_str by blast
  with Some show ?thesis by (simp add: detect_currency_def)
qed

lemma set_number_match: "number_match np = Some m \<Longrightarrow> set m \<subseteq> set np"
proof -
  assume a: "number_match np = Some m"
  then have "m = takeWhile isNumberChar (dropWhile (\<lambda>c. \<not> isNumberChar c) np)"
    by (auto simp: number_match_def split: list.splits)
  then have "set m \<subseteq> set (dropWhile (\<lambda>c. \<not> isNumberChar c) np)"
    using set_takeWhileD by fastforce
  also have "\<dots> \<subseteq> set np" using set_dropWhileD by fastforce
  finally show ?thesis .
qed

lemma set_numeric_remainder: "numeric_remainder s = Some r \<Longrightarrow> set r \<subseteq> set s"
proof -
  assume "numeric_remainder s = Some r"
  then obtain m where m: "number_match (snd (detect_currency (trim s))) = Some m"
    and r: "r = remove_spaces (trim m)"
    by (auto simp: numeric_remainder_def split: option.splits)
  have "set r \<subseteq> set m" using r set_trim by (auto simp: remove_spaces_def)
  also have "\<dots> \<subseteq> set (snd (detect_currency (trim s)))" by (rule set_number_match [OF m])
  also have "\<dots> \<subseteq> set (trim s)" by (rule set_detect_currency)
  also have "\<dots> \<subseteq> set s" by (rule set_trim)
  finally show ?thesis .
qed

lemma set_normalize_separators: "set (normalize_separators r) \<subseteq> insert 46 (set r)"
  by (auto simp: normalize_separators_def replace_all_def split: if_splits)

lemma takeWhile_none: "list_all (\<lambda>c. \<not> P c) xs \<Longrightarrow> takeWhile P xs = []"
  by (cases xs) auto

lemma dropWhile_none: "list_all (\<lambda>c. \<not> P c) xs \<Longrightarrow> dropWhile P xs = xs"
  by (cases xs) auto

lemma fraction_none:
  "list_all (\<lambda>c. \<not> isDigit c) u \<Longrightarrow>
   (case u of [] \<Rightarrow> [] | c # r' \<Rightarrow> if c = 46 then takeWhile isDigit r' else []) = []"
  by (cases u) (auto simp: takeWhile_none)

lemma parseFloat_no_digit:
  assumes "list_all (\<lambda>c. \<not> isDigit c) t"
  shows "parseFloat t = None"
proof -
  have u: "list_all (\<lambda>c. \<not> isDigit c) (dropWhile isWhiteSpace t)"
    using assms set_dropWhileD by (fastforce simp: list_all_iff)
  show ?thesis
    unfolding parseFloat_def Let_def
    by (simp only: takeWhile_none [OF u] dropWhile_none [OF u] fraction_none [OF u]) simp
qed

lemma no_digit_price_None:
  assumes "list_all (\<lambda>c. \<not> isDigit c) s"
  shows "price (parsePriceString s) = None"
proof (cases "numeric_remainder s")
  case None
  then show ?thesis by (simp add: parsePriceString_def)
next
  case (Some r)
  have "set (normalize_separators r) \<subseteq> insert 46 (set s)"
    using set_normalize_separators set_numeric_remainder [OF Some] by blast
  moreover have "\<not> isDigit 46" by (simp add: isDigit_def)
  ultimately have "list_all (\<lambda>c. \<not> isDigit c) (normalize_separators r)"
    using assms by (auto simp: list_all_iff)
  then have "parseFloat (normalize_separators r) = None" by (rule parseFloat_no_digit)
  with Some show ?thesis by (simp add: parsePriceString_def)
qed

lemma set_price_groups: "price_groups k t = Some (g1, g2) \<Longrightarrow> set g2 \<subseteq> set t"
proof (induction k)
  case 0
  then have "g2 = takeWhile isPriceChar t" by (auto split: list.splits)
  then show ?case using set_takeWhileD by fastforce
next
  case (Suc k)
  show ?case
  proof (cases "takeWhile isPriceChar (drop (Suc k) t)")
    case Nil
    with Suc show ?thesis by simp
  next
    case (Cons c cs)
    with Suc.prems have "g2 = takeWhile isPriceChar (drop (Suc k) t)" by simp
    then have "set g2 \<subseteq> set (drop (Suc k) t)" using set_takeWhileD by fastforce
    also have "\<dots> \<subseteq> set t" by (rule set_drop_subset)
    finally show ?thesis .
  qed
qed

lemma set_price_regex: "price_regex s = Some (g1, g2) \<Longrightarrow> set g2 \<subseteq> set s"
proof (induction s)
  case Nil
  then show ?case by simp
next
  case (Cons c cs)
  show ?case
  proof (cases "price_groups (length (takeWhile (\<lambda>x. \<not> isDigit x) (c # cs))) (c # cs)")
    case None
    with Cons show ?thesis by auto
  next
    case (Some g)
    with Cons.prems have "price_groups (length (takeWhile (\<lambda>x. \<not> isDigit x) (c # cs))) (c # cs) = Some (g1, g2)"
      by simp
    then show ?thesis by (rule set_price_groups)
  qed
qed

lemma no_digit_extractPrice:
  assumes "list_all (\<lambda>c. \<not> isDigit c) s"
  shows "pc_price (extractPrice s) = 0"
proof (cases "price_regex s")
  case None
  then show ?thesis by (simp add: extractPrice_def)
next
  case (Some g)
  obtain g1 g2 where g: "g = (g1, g2)" by (cases g)
  let ?str = "concat (map (\<lambda>c. if isSeparator c
                 then (if Suc (length (filter isSeparator g2)) > 2 then [] else if c = 44 then [46] else [])
                 else [c]) g2)"
  have "set g2 \<subseteq> set s" using Some g set_price_regex by simp
  moreover have "set ?str \<subseteq> insert 46 (set g2)" by (auto split: if_splits)
  moreover have "\<not> isDigit 46" by (simp add: isDigit_def)
  ultimately have "list_all (\<lambda>c. \<not> isDigit c) ?str"
    using assms by (auto simp: list_all_iff split: if_splits)
  then have "parseFloat ?str = None" by (rule parseFloat_no_digit)
  then show ?thesis using Some g by (simp add: extractPrice_def Let_def)
qed

text \<open>
  C3, as amended. When the numeric remainder is missing or does not parse, in particular
  whenever the text holds no digit (the empty string, \<open>abc\<close>),
  \<open>parsePriceString\<close> returns its failure result, a \<open>null\<close> price, and no
  number. The earlier normalizer \<open>extractPrice\<close> has no failure result: for a text
  without a digit it returns the number 0 as the price.
\<close>

theorem unparseable_results:
  "((case numeric_remainder s of None \<Rightarrow> True
     | Some r \<Rightarrow> parseFloat (normalize_separators r) = None) \<longrightarrow>
      price (parsePriceString s) = None) \<and>
   (list_all (\<lambda>c. \<not> isDigit c) t \<longrightarrow>
      price (parsePriceString t) = None \<and> pc_price (extractPrice t) = 0) \<and>
   parsePriceString (js '''') = \<lparr>price = None, currency = None\<rparr> \<and>
   parsePriceString (js ''abc'') = \<lparr>price = None, currency = None\<rparr>"
proof (intro conjI impI)
  assume "case numeric_remainder s of None \<Rightarrow> True
          | Some r \<Rightarrow> parseFloat (normalize_separators r) = None"
  then show "price (parsePriceString s) = None"
    by (cases "numeric_remainder s") (simp_all add: parsePriceString_def Let_def)
next
  assume "list_all (\<lambda>c. \<not> isDigit c) t"
  then show "price (parsePriceString t) = None" by (rule no_digit_price_None)
next
  assume "list_all (\<lambda>c. \<not> isDigit c) t"
  then show "pc_price (extractPrice t) = 0" by (rule no_digit_extractPrice)
next
  show "parsePriceString (js '''') = \<lparr>price = None, currency = None\<rparr>"
    by (simp add: ev)
next
  show "parsePriceString (js ''abc'') = \<lparr>price = None, currency = None\<rparr>"
    by (simp add: ev)
qed

theorem unparseable_results_witness:
  "numeric_remainder (js ''EUR .'') = Some (js ''.'') \<and>
   parseFloat (normalize_separators (js ''.'')) = None \<and>
   price (parsePriceString (js ''EUR .'')) = None \<and>
   list_all (\<lambda>c. \<not> isDigit c) (js ''abc'') \<and>
   price (parsePriceString (js ''abc'')) = None \<and>
   pc_price (extractPrice (js ''abc'')) = 0"
proof -
  have a: "numeric_remainder (js ''EUR .'') = Some (js ''.'')" by (simp add: ev)
  have b: "parseFloat (normalize_separators (js ''.'')) = None" by (simp add: ev)
  have c: "list_all (\<lambda>c. \<not> isDigit c) (js ''abc'')" by (simp add: ev)
  from unparseable_results [of "js ''EUR .''" "js ''abc''"] a b c show ?thesis by simp
qed

text \<open>
  C3 as stated fails on \<open>extractPrice\<close>: for \<open>abc\<close> and for the empty string it
  returns the numeric price 0 in USD.
\<close>

theorem extractPrice_counterexample:
  "extractPrice (js ''abc'') = \<lparr>pc_price = 0, pc_currency = js ''USD''\<rparr> \<and>
   extractPrice (js '''') = \<lparr>pc_price = 0, pc_currency = js ''USD''\<rparr>"
  by (simp add: ev extractPrice_def isPriceChar_def)

section \<open>Re-serialization\<close>

subsection \<open>Successful results\<close>

lemma parseFloat_nonneg: "parseFloat t = Some p \<Longrightarrow> 0 \<le> p"
  by (auto simp: parseFloat_def Let_def split: if_splits)

lemma symbol_loop_code: "fst (symbol_loop ps cleaned) = Some c \<Longrightarrow> c \<in> snd ` set ps"
  by (induction ps) (auto split: if_splits)

lemma detect_currency_in:
  assumes "fst (detect_currency cleaned) = Some c"
  shows "c \<in> set currency_codes"
proof (cases "code_match cleaned")
  case None
  with assms have "c \<in> snd ` set currencyPatterns"
    by (simp add: detect_currency_def symbol_loop_code)
  then show ?thesis by (auto simp: currencyPatterns_def currency_codes_def)
next
  case (Some m)
  then have "toUpperCase m \<in> set currency_codes"
    unfolding code_match_def by (rule code_search_in)
  with Some assms show ?thesis by (simp add: detect_currency_def)
qed

lemma or_USD_in: "or_USD (fst (detect_currency cleaned)) \<in> set currency_codes"
proof (cases "fst (detect_currency cleaned)")
  case None
  then show ?thesis by (simp add: or_USD_def currency_codes_def)
next
  case (Some c)
  then have "c \<in> set currency_codes" by (rule detect_currency_in)
  with Some show ?thesis by (simp add: or_USD_code)
qed

lemma success_shape:
  assumes "parsePriceString s = \<lparr>price = Some p, currency = Some c\<rparr>"
  shows "0 \<le> p \<and> c \<in> set currency_codes"
proof -
  from assms obtain r where r: "numeric_remainder s = Some r"
    by (cases "numeric_remainder s") (auto simp: parsePriceString_def Let_def)
  with assms have pf: "parseFloat (normalize_separators r) = Some p"
    by (cases "parseFloat (normalize_separators r)") (auto simp: parsePriceString_def Let_def)
  with r assms have "c = or_USD (fst (detect_currency (trim s)))"
    by (simp add: parsePriceString_def Let_def)
  with pf show ?thesis using parseFloat_nonneg or_USD_in by simp
qed

subsection \<open>Digits\<close>

declare digits_of.simps [simp del]

lemma digits_of_digits: "list_all isDigit (digits_of n)"
proof (induction n rule: digits_of.induct)
  case (1 n)
  show ?case
  proof (cases "n < 10")
    case True
    then show ?thesis by (subst digits_of.simps) (simp add: isDigit_def)
  next
    case False
    have "n mod 10 < 10" by simp
    then have "isDigit (48 + n mod 10)" unfolding isDigit_def by linarith
    with False 1 show ?thesis by (subst digits_of.simps) simp
  qed
qed

lemma digits_of_nonempty: "digits_of n \<noteq> []"
  by (subst digits_of.simps) simp

lemma digits_value_snoc: "digits_value (ds @ [d]) = 10 * digits_value ds + (d - 48)"
  by (simp add: digits_value_def)

lemma digits_value_digits_of: "digits_value (digits_of n) = n"
proof (induction n rule: digits_of.induct)
  case (1 n)
  show ?case
  proof (cases "n < 10")
    case True
    then show ?thesis by (subst digits_of.simps) (simp add: digits_value_def)
  next
    case False
    with 1 show ?thesis by (subst digits_of.simps) (simp add: digits_value_snoc)
  qed
qed

lemma two_digits_value:
  "digits_value [48 + (n mod 100) div 10, 48 + n mod 10] = n mod 100"
proof -
  have "n mod 10 = (n mod 100) mod 10" by (simp add: mod_mod_cancel)
  then have "10 * ((n mod 100) div 10) + n mod 10 = n mod 100" by simp
  then show ?thesis by (simp add: digits_value_def)
qed

lemma hundredths: "(of_nat (n div 100) :: rat) + of_nat (n mod 100) / 100 = of_nat n / 100"
proof -
  have "n = 100 * (n div 100) + n mod 100" by simp
  then have "(of_nat n :: rat) = 100 * of_nat (n div 100) + of_nat (n mod 100)"
    by (metis of_nat_add of_nat_mult of_nat_numeral)
  then show ?thesis by (simp add: field_simps)
qed

lemma toFixed2_hundredths:
  assumes "toFixed2 (of_nat n / 100) = Some t"
  shows "t = digits_of (n div 100) @ [46, 48 + (n mod 100) div 10, 48 + n mod 10]"
proof -
  have "\<lfloor>(of_nat n :: rat) + 1 / 2\<rfloor> = int n" by linarith
  then have "nat \<lfloor>\<bar>(of_nat n :: rat) / 100\<bar> * 100 + 1 / 2\<rfloor> = n" by simp
  with assms show ?thesis
    by (auto simp: toFixed2_def Let_def split: if_splits)
qed

subsection \<open>Reading the canonical text\<close>

lemma dropWhile_hd: "xs \<noteq> [] \<Longrightarrow> \<not> P (hd xs) \<Longrightarrow> dropWhile P xs = xs"
  by (cases xs) auto

lemma trim_id:
  assumes "s \<noteq> []" "\<not> isWhiteSpace (hd s)" "\<not> isWhiteSpace (last s)"
  shows "trim s = s"
proof -
  have a: "dropWhile isWhiteSpace s = s" using assms(1,2) by (cases s) auto
  have "hd (rev s) = last s" using assms(1) by (simp add: hd_rev)
  then have "dropWhile isWhiteSpace (rev s) = rev s"
    using assms(1,3) by (intro dropWhile_hd) simp_all
  with a show ?thesis by (simp add: trim_def)
qed

lemma trim_space_after:
  assumes "s \<noteq> []" "\<not> isWhiteSpace (hd s)" "\<not> isWhiteSpace (last s)"
  shows "trim (s @ [32]) = s"
proof -
  have a: "dropWhile isWhiteSpace (s @ [32]) = s @ [32]" using assms(1,2) by (cases s) auto
  have "hd (rev s) = last s" using assms(1) by (simp add: hd_rev)
  then have "dropWhile isWhiteSpace (rev s) = rev s"
    using assms(1,3) by (intro dropWhile_hd) simp_all
  with a show ?thesis by (simp add: trim_def isWhiteSpace_def)
qed

lemma code_alternatives_None:
  "toUpperUnit x \<notin> hd ` set codes \<Longrightarrow> [] \<notin> set codes \<Longrightarrow> code_alternatives codes (x # xs) = None"
proof (induction codes)
  case Nil
  then show ?case by simp
next
  case (Cons code codes)
  then obtain k ks where code: "code = k # ks" by (cases code) auto
  with Cons.prems have "toUpperUnit x \<noteq> k" by auto
  then have "toUpperCase (take (length code) (x # xs)) \<noteq> code"
    using code by (auto simp: toUpperCase_def)
  with Cons show ?case by auto
qed

lemma number_char_no_code:
  assumes "isNumberChar x"
  shows "code_alternatives currency_codes (x # xs) = None"
proof -
  have "x \<le> 57 \<or> isWhiteSpace x"
    using assms by (auto simp: isNumberChar_def isDigit_def)
  then have "toUpperUnit x \<notin> {85, 69, 71, 74, 73, 67, 65}"
    by (auto simp: toUpperUnit_def isWhiteSpace_def)
  moreover have "hd ` set currency_codes = {85, 69, 71, 74, 73, 67, 65}"
    by (auto simp: currency_codes_def js_def)
  moreover have "[] \<notin> set currency_codes"
    by (auto simp: currency_codes_def js_def)
  ultimately show ?thesis by (simp add: code_alternatives_None)
qed

lemma code_search_skip:
  "list_all isNumberChar P \<Longrightarrow> P \<noteq> [] \<Longrightarrow>
   code_search prev (P @ rest) = code_search (Some (last P)) rest"
proof (induction P arbitrary: prev)
  case Nil
  then show ?case by simp
next
  case (Cons x P)
  then have x: "code_alternatives currency_codes (x # P @ rest) = None"
    by (simp add: number_char_no_code)
  show ?case
  proof (cases "P = []")
    case True
    with x show ?thesis by simp
  next
    case False
    with Cons have "code_search (Some x) (P @ rest) = code_search (Some (last P)) rest" by simp
    with x False show ?thesis by simp
  qed
qed

lemma code_search_at_code:
  assumes "c \<in> set currency_codes"
  shows "code_search (Some 32) c = Some c"
  using assms by (auto simp: currency_codes_def js_def toUpperCase_def toUpperUnit_def isWordChar_def isDigit_def)

lemma toUpperCase_code: "c \<in> set currency_codes \<Longrightarrow> toUpperCase c = c"
  by (auto simp: currency_codes_def js_def toUpperCase_def toUpperUnit_def)

lemma code_first_letter: "c \<in> set currency_codes \<Longrightarrow> \<not> isNumberChar (hd c)"
  by (auto simp: currency_codes_def js_def isNumberChar_def isDigit_def isWhiteSpace_def)

lemma startsWith_refl: "startsWith s s"
  by (induction s) auto

lemma replace_str_suffix:
  "c \<noteq> [] \<Longrightarrow> hd c \<notin> set P \<Longrightarrow> replace_str (P @ c) c [] = P"
proof (induction P)
  case Nil
  then show ?case by (cases c) (auto simp: startsWith_refl)
next
  case (Cons x P)
  then obtain k ks where c: "c = k # ks" by (cases c) auto
  with Cons.prems have "x \<noteq> k" by auto
  with Cons c show ?case by simp
qed

lemma number_match_all:
  "list_all isNumberChar A \<Longrightarrow> A \<noteq> [] \<Longrightarrow> number_match A = Some A"
proof -
  assume a: "list_all isNumberChar A" and n: "A \<noteq> []"
  then have "dropWhile (\<lambda>c. \<not> isNumberChar c) A = A" by (cases A) auto
  moreover have "takeWhile isNumberChar A = A" using a by (simp add: list_all_iff)
  ultimately show ?thesis using n by (cases A) (auto simp: number_match_def)
qed

lemma normalize_separators_no_comma: "44 \<notin> set A \<Longrightarrow> normalize_separators A = A"
  by (simp add: normalize_separators_def includes_str_single)

lemma parseFloat_decimal:
  assumes "list_all isDigit D" "D \<noteq> []" "list_all isDigit F"
  shows "parseFloat (D @ 46 # F) =
         Some (of_nat (digits_value D) + of_nat (digits_value F) / 10 ^ length F)"
proof -
  have nd: "\<not> isDigit 46" by (simp add: isDigit_def)
  have "\<not> isWhiteSpace (hd D)"
    using assms(1,2) by (cases D) (auto simp: isDigit_def isWhiteSpace_def)
  then have a: "dropWhile isWhiteSpace (D @ 46 # F) = D @ 46 # F"
    using assms(2) by (cases D) auto
  have b: "takeWhile isDigit (D @ 46 # F) = D"
    using assms(1) nd by (simp add: list_all_iff takeWhile_append2)
  have c: "dropWhile isDigit (D @ 46 # F) = 46 # F"
    using assms(1) nd by (simp add: list_all_iff dropWhile_append2)
  have d: "takeWhile isDigit F = F" using assms(3) by (simp add: list_all_iff)
  show ?thesis
    unfolding parseFloat_def Let_def a b c using assms(2) by (simp add: d)
qed

lemma canonical_text:
  assumes D: "list_all isDigit D" "D \<noteq> []" and d: "isDigit d1" "isDigit d2"
    and c: "c \<in> set currency_codes"
  shows "parsePriceString (D @ [46, d1, d2] @ js '' '' @ c) =
         \<lparr>price = Some (of_nat (digits_value D) + of_nat (digits_value [d1, d2]) / 100),
          currency = Some c\<rparr>"
proof -
  let ?A = "D @ [46, d1, d2]"
  let ?P = "?A @ [32]"
  let ?s = "?P @ c"
  have sp: "js '' '' = [32]" by (simp add: js_def)
  have cne: "c \<noteq> []" using c by (rule currency_codes_nonempty)
  have dig_ws: "\<not> isWhiteSpace x" if "isDigit x" for x
    using that by (auto simp: isDigit_def isWhiteSpace_def)
  have hdD: "\<not> isWhiteSpace (hd D)" using D by (cases D) (auto simp: dig_ws)
  have hdA: "hd ?A = hd D" using D(2) by simp
  have lastA: "last ?A = d2" by simp
  have A_num: "list_all isNumberChar ?A"
    using D(1) d by (auto simp: list_all_iff isNumberChar_def)
  have P_num: "list_all isNumberChar ?P"
    using A_num by (simp add: isNumberChar_def isWhiteSpace_def)
  have A_nows: "list_all (\<lambda>x. \<not> isWhiteSpace x) ?A"
    using D(1) d dig_ws by (auto simp: list_all_iff isWhiteSpace_def)
  have lastc: "\<not> isWhiteSpace (last c)"
    using c by (auto simp: currency_codes_def js_def isWhiteSpace_def)
  have t: "trim ?s = ?s"
  proof (rule trim_id)
    show "?s \<noteq> []" by simp
    show "\<not> isWhiteSpace (hd ?s)" using hdD D(2) by simp
    show "\<not> isWhiteSpace (last ?s)" using lastc cne by simp
  qed
  have "code_search None (?P @ c) = code_search (Some (last ?P)) c"
    by (rule code_search_skip [OF P_num]) simp
  then have cm: "code_match ?s = Some c"
    using code_search_at_code [OF c] by (simp add: code_match_def)
  have "hd c \<notin> set ?P"
    using code_first_letter [OF c] P_num by (auto simp: list_all_iff)
  then have rp: "replace_str ?s c [] = ?P" using cne by (rule replace_str_suffix [rotated])
  have tA: "trim ?P = ?A"
    by (rule trim_space_after) (use hdD hdA d dig_ws in auto)
  have dc: "detect_currency ?s = (Some c, ?A)"
    by (simp only: detect_currency_def cm option.case toUpperCase_code [OF c] rp tA)
  have nm: "number_match ?A = Some ?A" by (rule number_match_all [OF A_num]) simp
  have tA2: "trim ?A = ?A"
    by (rule trim_id) (use hdD hdA d dig_ws in auto)
  have rs: "remove_spaces ?A = ?A"
    using A_nows by (simp add: remove_spaces_def list_all_iff)
  have nr: "numeric_remainder ?s = Some ?A"
    by (simp only: numeric_remainder_def t dc snd_conv nm option.case tA2 rs)
  have "44 \<notin> set ?A" using D(1) d by (auto simp: list_all_iff isDigit_def)
  then have ns: "normalize_separators ?A = ?A" by (rule normalize_separators_no_comma)
  have pf: "parseFloat ?A = Some (of_nat (digits_value D) + of_nat (digits_value [d1, d2]) / 100)"
    using parseFloat_decimal [OF D, of "[d1, d2]"] d by simp
  have "parsePriceString ?s =
        \<lparr>price = Some (of_nat (digits_value D) + of_nat (digits_value [d1, d2]) / 100),
         currency = Some (or_USD (Some c))\<rparr>"
    by (simp only: parsePriceString_def Let_def t dc fst_conv nr option.case ns pf)
  then show ?thesis by (simp add: sp or_USD_code [OF c])
qed

text \<open>
  C9, as amended. For every successful result whose price has at most two decimals (and is
  below \<open>10^21\<close>, where \<open>toFixed\<close> still prints plain digits), parsing
  \<open>price.toFixed(2) + " " + currency\<close> again yields the same price and currency.
\<close>

theorem reserialize_two_decimals:
  assumes ok: "parsePriceString s = \<lparr>price = Some p, currency = Some c\<rparr>"
    and two: "of_int \<lfloor>p * 100\<rfloor> = p * 100"
    and ser: "toFixed2 p = Some t"
  shows "parsePriceString (t @ js '' '' @ c) = \<lparr>price = Some p, currency = Some c\<rparr>"
proof -
  from success_shape [OF ok] have p0: "0 \<le> p" and c: "c \<in> set currency_codes" by simp_all
  define n where "n = nat \<lfloor>p * 100\<rfloor>"
  have "0 \<le> \<lfloor>p * 100\<rfloor>" using p0 by simp
  then have "(of_nat n :: rat) = p * 100" using two by (simp add: n_def)
  then have p: "p = of_nat n / 100" by simp
  let ?D = "digits_of (n div 100)"
  let ?d1 = "48 + (n mod 100) div 10"
  let ?d2 = "48 + n mod 10"
  have t: "t = ?D @ [46, ?d1, ?d2]" using ser unfolding p by (rule toFixed2_hundredths)
  have "(n mod 100) div 10 < 10" by simp
  then have d1: "isDigit ?d1" unfolding isDigit_def by linarith
  have "n mod 10 < 10" by simp
  then have d2: "isDigit ?d2" unfolding isDigit_def by linarith
  have "parsePriceString (?D @ [46, ?d1, ?d2] @ js '' '' @ c) =
        \<lparr>price = Some (of_nat (digits_value ?D) + of_nat (digits_value [?d1, ?d2]) / 100),
         currency = Some c\<rparr>"
    by (rule canonical_text [OF digits_of_digits digits_of_nonempty d1 d2 c])
  then show ?thesis
    unfolding t p by (simp add: digits_value_digits_of two_digits_value hundredths)
qed

theorem reserialize_two_decimals_witness:
  "parsePriceString (js ''$1,234.50'') = \<lparr>price = Some (123450 / 100), currency = Some (js ''USD'')\<rparr> \<and>
   of_int \<lfloor>(123450 / 100 :: rat) * 100\<rfloor> = (123450 / 100 :: rat) * 100 \<and>
   toFixed2 (123450 / 100) = Some (js ''1234.50'') \<and>
   parsePriceString (js ''1234.50'' @ js '' '' @ js ''USD'') =
     \<lparr>price = Some (123450 / 100), currency = Some (js ''USD'')\<rparr>"
proof -
  have a: "parsePriceString (js ''$1,234.50'') = \<lparr>price = Some (123450 / 100), currency = Some (js ''USD'')\<rparr>"
    by (simp add: ev)
  have b: "of_int \<lfloor>(123450 / 100 :: rat) * 100\<rfloor> = (123450 / 100 :: rat) * 100" by simp
  have "\<lfloor>\<bar>(123450 / 100 :: rat)\<bar> * 100 + 1 / 2\<rfloor> = 123450" by (simp add: floor_eq_iff)
  then have n: "nat \<lfloor>\<bar>(123450 / 100 :: rat)\<bar> * 100 + 1 / 2\<rfloor> = 123450" by simp
  have d: "digits_of 1234 = [49, 50, 51, 52]" by (simp add: digits_of.simps)
  have c: "toFixed2 (123450 / 100) = Some (js ''1234.50'')"
    unfolding toFixed2_def Let_def n by (simp add: js_def d)
  from reserialize_two_decimals [OF a b c] a b c show ?thesis by simp
qed

text \<open>
  C9 as stated fails: \<open>1.234\<close> parses to 1.234 USD, its re-serialization is
  \<open>1.23 USD\<close>, and that parses to 1.23.
\<close>

theorem reserialize_counterexample:
  "parsePriceString (js ''1.234'') = \<lparr>price = Some (1234 / 1000), currency = Some (js ''USD'')\<rparr> \<and>
   toFixed2 (1234 / 1000) = Some (js ''1.23'') \<and>
   parsePriceString (js ''1.23'' @ js '' '' @ js ''USD'') =
     \<lparr>price = Some (123 / 100), currency = Some (js ''USD'')\<rparr> \<and>
   (123 / 100 :: rat) \<noteq> 1234 / 1000"
proof -
  have a: "parsePriceString (js ''1.234'') = \<lparr>price = Some (1234 / 1000), currency = Some (js ''USD'')\<rparr>"
    by (simp add: ev)
  have "\<lfloor>\<bar>(1234 / 1000 :: rat)\<bar> * 100 + 1 / 2\<rfloor> = 123" by (simp add: floor_eq_iff)
  then have n: "nat \<lfloor>\<bar>(1234 / 1000 :: rat)\<bar> * 100 + 1 / 2\<rfloor> = 123" by simp
  have d: "digits_of (Suc 0) = [49]" by (subst digits_of.simps) simp
  have b: "toFixed2 (1234 / 1000) = Some (js ''1.23'')"
    unfolding toFixed2_def Let_def n by (simp add: js_def d)
  have c: "parsePriceString (js ''1.23'' @ js '' '' @ js ''USD'') =
     \<lparr>price = Some (123 / 100), currency = Some (js ''USD'')\<rparr>"
    by (simp add: ev)
  from a b c show ?thesis by simp
qed


section \<open>Properties of the retry orchestrators\<close>

declare withRetry_loop.simps [simp del] retryOperation_loop.simps [simp del]

lemma withRetry_loop_succeeds:
  "fails_first fn k s = Some sk \<Longrightarrow> fn sk = (Inr v, s') \<Longrightarrow> attempt + k \<le> maxRetries \<Longrightarrow>
   withRetry_loop fn nm maxRetries attempt le s calls = (Inr v, s', Suc (calls + k))"
proof (induction k arbitrary: s attempt le calls)
  case 0
  then show ?case by (subst withRetry_loop.simps) simp
next
  case (Suc k)
  from Suc.prems(1) obtain e s1 where step: "fn s = (Inl e, s1)" and rest: "fails_first fn k s1 = Some sk"
    by (auto split: prod.splits sum.splits)
  have "withRetry_loop fn nm maxRetries (Suc attempt) (Some e) s1 (Suc calls) = (Inr v, s', Suc (Suc calls + k))"
    using Suc.IH [OF rest Suc.prems(2)] Suc.prems(3) by simp
  then show ?case using step Suc.prems(3) by (subst withRetry_loop.simps) simp
qed

lemma withRetry_loop_exhausts:
  "fails_first fn k s = Some sk \<Longrightarrow> attempt + k = Suc maxRetries \<Longrightarrow> 
   \<exists>e. withRetry_loop fn nm maxRetries attempt le s calls = (Inl e, sk, calls + k)"
proof (induction k arbitrary: s attempt le calls)
  case 0
  then show ?case by (subst withRetry_loop.simps) simp
next
  case (Suc k)
  from Suc.prems(1) obtain e s1 where step: "fn s = (Inl e, s1)" and rest: "fails_first fn k s1 = Some sk"
    by (auto split: prod.splits sum.splits)
  have a: "Suc attempt + k = Suc maxRetries" using Suc.prems(2) by simp
  have "\<exists>e'. withRetry_loop fn nm maxRetries (Suc attempt) (Some e) s1 (Suc calls) = (Inl e', sk, Suc calls + k)"
    by (rule Suc.IH [OF rest a])
  then show ?case using step Suc.prems(2) by (subst withRetry_loop.simps) simp
qed

lemma retryOperation_loop_succeeds:
  "fails_first fn k s = Some sk \<Longrightarrow> fn sk = (Inr v, s') \<Longrightarrow> attempt + k \<le> retryAttempts \<Longrightarrow>
   retryOperation_loop fn nm retryAttempts attempt le s calls = (Inr v, s', Suc (calls + k))"
proof (induction k arbitrary: s attempt le calls)
  case 0
  then show ?case by (subst retryOperation_loop.simps) simp
next
  case (Suc k)
  from Suc.prems(1) obtain e s1 where step: "fn s = (Inl e, s1)" and rest: "fails_first fn k s1 = Some sk"
    by (auto split: prod.splits sum.splits)
  have "retryOperation_loop fn nm retryAttempts (Suc attempt) (Some e) s1 (Suc calls) = (Inr v, s', Suc (Suc calls + k))"
    using Suc.IH [OF rest Suc.prems(2)] Suc.prems(3) by simp
  then show ?case using step Suc.prems(3) by (subst retryOperation_loop.simps) simp
qed

lemma retryOperation_loop_exhausts:
  "fails_first fn k s = Some sk \<Longrightarrow> attempt + k = Suc retryAttempts \<Longrightarrow> 
   \<exists>e. retryOperation_loop fn nm retryAttempts attempt le s calls = (Inl e, sk, calls + k)"
proof (induction k arbitrary: s attempt le calls)
  case 0
  then show ?case by (subst retryOperation_loop.simps) simp
next
  case (Suc k)
  from Suc.prems(1) obtain e s1 where step: "fn s = (Inl e, s1)" and rest: "fails_first fn k s1 = Some sk"
    by (auto split: prod.splits sum.splits)
  have a: "Suc attempt + k = Suc retryAttempts" using Suc.prems(2) by simp
  have "\<exists>e'. retryOperation_loop fn nm retryAttempts (Suc attempt) (Some e) s1 (Suc calls) = (Inl e', sk, Suc calls + k)"
    by (rule Suc.IH [OF rest a])
  then show ?case using step Suc.prems(2) by (subst retryOperation_loop.simps) simp
qed

text \<open>
  C5. Retry orchestrators. \<open>withRetry\<close> runs attempts \<open>0..maxRetries\<close>, so its bound on
  attempts is \<open>maxRetries + 1\<close> (the \<open>totalAttempts\<close> of its log entry);
  \<open>retryOperation\<close> runs attempts \<open>1..retryAttempts\<close>, so its bound is
  \<open>retryAttempts\<close>. For both: an operation that fails exactly \<open>k\<close> times, with \<open>k\<close>
  below the bound, and then succeeds yields the success value after exactly \<open>k + 1\<close>
  invocations; an operation that fails on every invocation makes the orchestrator throw
  after exactly as many invocations as the bound.
\<close>

theorem retry_invocation_counts:
  "(fails_first fn k s = Some sk \<and> fn sk = (Inr v, s') \<and> k < Suc maxRetries \<longrightarrow>
      withRetry fn nm maxRetries s = (Inr v, s', Suc k)) \<and>
   (fails_first gn (Suc maxRetries) t = Some tk \<longrightarrow>
      (\<exists>e. withRetry gn nm maxRetries t = (Inl e, tk, Suc maxRetries))) \<and>
   (fails_first fn k s = Some sk \<and> fn sk = (Inr v, s') \<and> k < retryAttempts \<longrightarrow>
      retryOperation fn nm retryAttempts s = (Inr v, s', Suc k)) \<and>
   (fails_first gn retryAttempts t = Some tk \<longrightarrow>
      (\<exists>e. retryOperation gn nm retryAttempts t = (Inl e, tk, retryAttempts)))"
proof (intro conjI impI)
  assume "fails_first fn k s = Some sk \<and> fn sk = (Inr v, s') \<and> k < Suc maxRetries"
  then show "withRetry fn nm maxRetries s = (Inr v, s', Suc k)"
    unfolding withRetry_def using withRetry_loop_succeeds [of fn k s sk v s' 0 maxRetries nm None 0] by simp
next
  assume "fails_first gn (Suc maxRetries) t = Some tk"
  then show "\<exists>e. withRetry gn nm maxRetries t = (Inl e, tk, Suc maxRetries)"
    unfolding withRetry_def using withRetry_loop_exhausts [of gn "Suc maxRetries" t tk 0 maxRetries nm None 0] by simp
next
  assume "fails_first fn k s = Some sk \<and> fn sk = (Inr v, s') \<and> k < retryAttempts"
  then show "retryOperation fn nm retryAttempts s = (Inr v, s', Suc k)"
    unfolding retryOperation_def using retryOperation_loop_succeeds [of fn k s sk v s' 1 retryAttempts nm None 0] by simp
next
  assume "fails_first gn retryAttempts t = Some tk"
  then show "\<exists>e. retryOperation gn nm retryAttempts t = (Inl e, tk, retryAttempts)"
    unfolding retryOperation_def using retryOperation_loop_exhausts [of gn retryAttempts t tk 1 retryAttempts nm None 0] by simp
qed

theorem retry_invocation_counts_witness:
  "fails_first flaky 2 0 = Some 2 \<and> flaky 2 = (Inr 20, 3) \<and>
   fails_first broken 3 0 = Some 3 \<and>
   withRetry flaky (js ''goto'') 2 0 = (Inr 20, 3, 3) \<and>
   (\<exists>e. withRetry broken (js ''goto'') 2 0 = (Inl e, 3, 3)) \<and>
   retryOperation flaky (js ''goto'') 3 0 = (Inr 20, 3, 3) \<and>
   (\<exists>e. retryOperation broken (js ''goto'') 3 0 = (Inl e, 3, 3))"
proof -
  have a: "fails_first flaky 2 0 = Some 2"
    by (simp add: flaky_def numeral_2_eq_2)
  have b: "flaky 2 = (Inr 20, 3)"
    by (simp add: flaky_def)
  have c: "fails_first broken 3 0 = Some 3"
    by (simp add: broken_def numeral_3_eq_3)
  show ?thesis
    using a b c
      retry_invocation_counts [where fn = flaky and k = 2 and s = 0 and sk = 2 and v = 20
        and s' = 3 and maxRetries = 2 and gn = broken and t = 0 and tk = 3
        and retryAttempts = 3 and nm = "js ''goto''"]
    by (simp add: numeral_3_eq_3)
qed


section \<open>Properties of the candidate extractor\<close>

lemmas ev_extract = isCurrencySymbol_def isDigitOrComma_def price_pattern_body_def
  price_pattern_at_def extractPriceFromText_def extractPriceInfo_def priceSelectors_def

lemma first_positive_positive:
  "first_positive ms = Some r \<Longrightarrow> \<exists>p. price r = Some p \<and> 0 < p"
  by (induction ms) (auto simp: Let_def split: option.splits if_splits)

lemma fallback_accepts_positive:
  "extractPriceFromText txt = Some r \<Longrightarrow> \<exists>p. price r = Some p \<and> 0 < p"
  unfolding extractPriceFromText_def by (rule first_positive_positive)

lemma selector_loop_parsed:
  "selector_loop doc selectors = Some r \<Longrightarrow>
   \<exists>selector t. selector \<in> set selectors \<and> first_text doc selector = Some t \<and>
     r = parsePriceString (trim t) \<and> price r \<noteq> None"
proof (induction selectors)
  case Nil
  then show ?case by simp
next
  case (Cons selector selectors)
  then show ?case
    by (auto simp: Let_def split: option.splits)
qed

lemma zero_text: "parsePriceString (trim (js ''0'')) = \<lparr>price = Some 0, currency = Some (js ''USD'')\<rparr>"
  by (simp add: ev)

lemma body_matches:
  "match_all (js ''Rooms from $ 120 per night'') = [js ''$ 120'']"
  by (simp add: js_def ev_extract isWhiteSpace_def isDigit_def)

lemma body_price:
  "parsePriceString (js ''$ 120'') = \<lparr>price = Some 120, currency = Some (js ''USD'')\<rparr>"
  by (simp add: ev)

text \<open>
  C4. The free-text fallback only accepts a match with a price above 0
  (\<open>fallback_accepts_positive\<close>), but the selector loop accepts any candidate that
  parses: on a page whose \<open>[data-price]\<close> element reads \<open>0\<close> the extraction result
  is the price 0 in USD, although the body text holds the price 120 that the fallback would
  have taken.
\<close>

theorem selector_accepts_zero_price:
  "extractPriceInfo zero_price_page = \<lparr>price = Some 0, currency = Some (js ''USD'')\<rparr> \<and>
   extractPriceFromText (body_text zero_price_page) =
     Some \<lparr>price = Some 120, currency = Some (js ''USD'')\<rparr>"
proof
  show "extractPriceInfo zero_price_page = \<lparr>price = Some 0, currency = Some (js ''USD'')\<rparr>"
    by (simp add: extractPriceInfo_def priceSelectors_def zero_price_page_def zero_text)
  show "extractPriceFromText (body_text zero_price_page) =
     Some \<lparr>price = Some 120, currency = Some (js ''USD'')\<rparr>"
    by (simp add: extractPriceFromText_def zero_price_page_def body_matches body_price)
qed

section \<open>Properties of the batch searches\<close>

lemma searchHotels_loop_outcomes:
  "searchHotels_loop search hotelIds results errors s =
     ((results @ successes (batch_outcomes search hotelIds s),
       errors @ failures (batch_outcomes search hotelIds s)),
      batch_final search hotelIds s)"
proof (induction hotelIds arbitrary: results errors s)
  case Nil
  then show ?case by (simp add: successes_def failures_def)
next
  case (Cons hotelId hotelIds)
  obtain outcome s1 where step: "search hotelId s = (outcome, s1)" by (cases "search hotelId s")
  show ?case
  proof (cases outcome)
    case (Inl e)
    with step Cons.IH [of results "errors @ [(hotelId, e)]" s1] show ?thesis
      by (simp add: successes_def failures_def)
  next
    case (Inr r)
    with step Cons.IH [of "results @ [r]" errors s1] show ?thesis
      by (simp add: successes_def failures_def)
  qed
qed

lemma searchMultipleHotels_loop_outcomes:
  "searchMultipleHotels_loop w n hotelNames ci co results s =
     (results @ found (batch_outcomes (\<lambda>h. searchHotelPrices w n True h ci co) hotelNames s),
      batch_final (\<lambda>h. searchHotelPrices w n True h ci co) hotelNames s)"
proof (induction hotelNames arbitrary: results s)
  case Nil
  then show ?case by (simp add: found_def)
next
  case (Cons hotelName hotelNames)
  obtain outcome s1 where step: "searchHotelPrices w n True hotelName ci co s = (outcome, s1)"
    by (cases "searchHotelPrices w n True hotelName ci co s")
  show ?case
  proof (cases outcome)
    case (Inl e)
    with step Cons.IH [of results s1] show ?thesis by (simp add: found_def)
  next
    case (Inr ro)
    show ?thesis
    proof (cases ro)
      case None
      with Inr step Cons.IH [of results s1] show ?thesis by (simp add: found_def)
    next
      case (Some r)
      with Inr step Cons.IH [of "results @ [r]" s1] show ?thesis by (simp add: found_def)
    qed
  qed
qed

lemma batch_outcomes_hotels: "map fst (batch_outcomes search hotelIds s) = hotelIds"
  by (induction hotelIds arbitrary: s) auto

text \<open>
  C6, as amended. The failure of one hotel's search never aborts a batch: every hotel of
  the list is searched, in order, each search starting where the previous one ended,
  whatever the earlier searches did. \<open>searchHotels\<close> returns exactly the results of the
  searches that succeeded; the failures, one for each search that failed, are collected
  for the log and are not part of the result. \<open>searchMultipleHotels\<close>, once its
  arguments are valid, returns exactly the results of the searches that found a hotel.
\<close>

theorem batch_returns_successes_only:
  "searchHotels render maxRetries hotelIds checkIn checkOut guests s =
     (successes (batch_outcomes
         (\<lambda>hotelId. searchSingleHotel render maxRetries hotelId checkIn checkOut guests) hotelIds s),
      batch_final
         (\<lambda>hotelId. searchSingleHotel render maxRetries hotelId checkIn checkOut guests) hotelIds s) \<and>
   searchHotels_errors render maxRetries hotelIds checkIn checkOut guests s =
     failures (batch_outcomes
         (\<lambda>hotelId. searchSingleHotel render maxRetries hotelId checkIn checkOut guests) hotelIds s) \<and>
   map fst (batch_outcomes
         (\<lambda>hotelId. searchSingleHotel render maxRetries hotelId checkIn checkOut guests) hotelIds s) =
     hotelIds \<and>
   (hotelNames \<noteq> [] \<and> isValidDateFormat w checkInDate \<and> isValidDateFormat w checkOutDate \<and>
    \<not> date_ge w checkInDate checkOutDate \<longrightarrow>
      searchMultipleHotels w retryAttempts True hotelNames checkInDate checkOutDate t =
        (Inr (found (batch_outcomes
                (\<lambda>h. searchHotelPrices w retryAttempts True h checkInDate checkOutDate) hotelNames t)),
         batch_final
           (\<lambda>h. searchHotelPrices w retryAttempts True h checkInDate checkOutDate) hotelNames t) \<and>
      map fst (batch_outcomes
           (\<lambda>h. searchHotelPrices w retryAttempts True h checkInDate checkOutDate) hotelNames t) =
        hotelNames)"
  by (simp add: searchHotels_def searchHotels_errors_def searchHotels_loop_outcomes
      searchMultipleHotels_def searchMultipleHotels_loop_outcomes batch_outcomes_hotels)

lemmas ev_world = demo_world_def demo_card_def isValidDateFormat_def date_shape_def date_ge_def
  searchMultipleHotels_def searchHotelPrices_def retryOperation_def card_result_def
  extractPrice_def isPriceChar_def isSeparator_def search_failed_def WEBBEDS_BASE_URL_def

lemma demo_search:
  "searchHotelPrices demo_world 3 True (js ''Voco Makkah'') ci co s =
     (Inr (Some \<lparr>sr_hotelId = js ''2548785'', sr_hotelName = js ''Voco Makkah'', sr_price = 250,
                 sr_currency = js ''USD'', sr_checkIn = ci, sr_checkOut = co,
                 sr_rating = None, sr_image = None, sr_url = js ''https://www.webbeds.com''\<rparr>), Suc s)"
  by (simp add: ev_world ev retryOperation_loop.simps)

lemma demo_navigation_fails:
  "searchHotelPrices demo_world 3 True (js ''Elaf Ajyad Hotel'') ci co s =
     (Inl (search_failed (js ''Elaf Ajyad Hotel'')
            (js ''Failed to complete '' @ js ''navigate to '' @ js ''Elaf Ajyad Hotel'' @
             js '' search'' @ js '' after '' @ digits_of 3 @ js '' attempts: '' @
             js ''Navigation timeout'')),
      Suc (Suc (Suc s)))"
  by (simp add: searchHotelPrices_def retryOperation_def retryOperation_loop.simps demo_world_def)

lemma price_text: "parsePriceString (trim (js ''USD 250.00'')) = \<lparr>price = Some 250, currency = Some (js ''USD'')\<rparr>"
  by (simp add: ev)

lemma name_text: "trim (js ''Voco Makkah'') = js ''Voco Makkah''"
  by (simp add: ev)

lemma name_nonempty: "js ''Voco Makkah'' \<noteq> []"
  by (simp add: js_def)

lemma trim_empty: "trim [] = []"
  by (simp add: trim_def)

lemma price_page_extract:
  "extractPrices price_page hotelId checkIn checkOut =
     Inr \<lparr>hr_hotelId = hotelId, hr_name = js ''Voco Makkah'', hr_price = 250,
          hr_currency = js ''USD'', hr_checkIn = checkIn, hr_checkOut = checkOut\<rparr>"
  by (simp add: extractPrices_def extractHotelName_def nameSelectors_def extractPriceInfo_def
      priceSelectors_def price_page_def price_text name_text name_nonempty trim_empty Let_def)

lemma demo_found:
  "hotelId \<noteq> js ''22074'' \<Longrightarrow>
   searchSingleHotel demo_render (Suc 0) hotelId checkIn checkOut guests s =
     (Inr \<lparr>hr_hotelId = hotelId, hr_name = js ''Voco Makkah'', hr_price = 250,
           hr_currency = js ''USD'', hr_checkIn = checkIn, hr_checkOut = checkOut\<rparr>, Suc s)"
  by (simp add: searchSingleHotel_def searchSingleHotel_attempt_def withRetry_def
      withRetry_loop.simps demo_render_def price_page_extract)

lemma demo_timeout:
  "searchSingleHotel demo_render (Suc 0) (js ''22074'') checkIn checkOut guests s =
     (Inl (js ''Navigation timeout''), Suc (Suc s))"
  by (simp add: searchSingleHotel_def searchSingleHotel_attempt_def withRetry_def
      withRetry_loop.simps demo_render_def)

lemma other_hotel: "js ''2548785'' \<noteq> js ''22074''"
  by (simp add: js_def)

theorem batch_returns_successes_only_witness:
  "[js ''Elaf Ajyad Hotel'', js ''Voco Makkah''] \<noteq> [] \<and>
   isValidDateFormat demo_world (js ''2024-12-25'') \<and>
   isValidDateFormat demo_world (js ''2024-12-26'') \<and>
   \<not> date_ge demo_world (js ''2024-12-25'') (js ''2024-12-26'') \<and>
   searchHotels demo_render 1 [js ''22074'', js ''2548785''] (js ''2024-12-25'') (js ''2024-12-26'') 2 0 =
     ([\<lparr>hr_hotelId = js ''2548785'', hr_name = js ''Voco Makkah'', hr_price = 250,
        hr_currency = js ''USD'', hr_checkIn = js ''2024-12-25'', hr_checkOut = js ''2024-12-26''\<rparr>],
      3) \<and>
   searchHotels_errors demo_render 1 [js ''22074'', js ''2548785''] (js ''2024-12-25'') (js ''2024-12-26'') 2 0 =
     [(js ''22074'', js ''Navigation timeout'')] \<and>
   searchMultipleHotels demo_world 3 True [js ''Elaf Ajyad Hotel'', js ''Voco Makkah'']
       (js ''2024-12-25'') (js ''2024-12-26'') 0 =
     (Inr [\<lparr>sr_hotelId = js ''2548785'', sr_hotelName = js ''Voco Makkah'', sr_price = 250,
            sr_currency = js ''USD'', sr_checkIn = js ''2024-12-25'', sr_checkOut = js ''2024-12-26'',
            sr_rating = None, sr_image = None, sr_url = js ''https://www.webbeds.com''\<rparr>],
      4)"
proof -
  have a: "isValidDateFormat demo_world (js ''2024-12-25'')" by (simp add: ev_world ev)
  have b: "isValidDateFormat demo_world (js ''2024-12-26'')" by (simp add: ev_world ev)
  have c: "\<not> date_ge demo_world (js ''2024-12-25'') (js ''2024-12-26'')" by (simp add: ev_world ev)
  from batch_returns_successes_only [where hotelNames = "[js ''Elaf Ajyad Hotel'', js ''Voco Makkah'']"
      and w = demo_world and checkInDate = "js ''2024-12-25''" and checkOutDate = "js ''2024-12-26''"
      and retryAttempts = 3 and t = 0 and render = demo_render and maxRetries = "Suc 0"
      and hotelIds = "[js ''22074'', js ''2548785'']" and checkIn = "js ''2024-12-25''"
      and checkOut = "js ''2024-12-26''" and guests = 2 and s = 0] a b c
  show ?thesis
    by (simp add: successes_def failures_def found_def demo_timeout demo_found [OF other_hotel]
        demo_search demo_navigation_fails)
qed

text \<open>
  C6 as stated fails: a batch in which hotel 22074 times out returns the same value as
  the batch without that hotel, while its failure list is not empty.
\<close>

theorem batch_failures_not_returned:
  "fst (searchHotels demo_render 1 [js ''22074'', js ''2548785''] (js ''2024-12-25'') (js ''2024-12-26'') 2 0) =
   fst (searchHotels demo_render 1 [js ''2548785''] (js ''2024-12-25'') (js ''2024-12-26'') 2 0) \<and>
   searchHotels_errors demo_render 1 [js ''22074'', js ''2548785''] (js ''2024-12-25'') (js ''2024-12-26'') 2 0 =
     [(js ''22074'', js ''Navigation timeout'')] \<and>
   searchHotels_errors demo_render 1 [js ''2548785''] (js ''2024-12-25'') (js ''2024-12-26'') 2 0 = []"
  by (simp add: searchHotels_def searchHotels_errors_def demo_timeout demo_found [OF other_hotel])

section \<open>Properties of the comparator\<close>

text \<open>
  What holds of \<open>comparePrices\<close> in general: the sort puts every hotel with an
  observation before every hotel without one and the observed prices in non-decreasing
  order, and without a date filter the output has one entry for each hotel.
\<close>

lemma length_sort_insert: "length (sort_insert cmp x ys) = Suc (length ys)"
  by (induction ys) auto

lemma set_sort_insert: "set (sort_insert cmp x ys) = insert x (set ys)"
  by (induction ys) auto

lemma length_sort_fold:
  "length (foldl (\<lambda>sorted x. sort_insert cmp x sorted) acc xs) = length acc + length xs"
  by (induction xs arbitrary: acc) (auto simp: length_sort_insert)

lemma length_array_sort: "length (array_sort cmp xs) = length xs"
  by (simp add: array_sort_def length_sort_fold)

lemma listed_before_trans: "listed_before a b \<Longrightarrow> listed_before b c \<Longrightarrow> listed_before a c"
  by (auto simp: listed_before_def split: option.splits)

lemma compare_below: "compare_latest x y < 0 \<Longrightarrow> listed_before x y"
  by (auto simp: compare_latest_def listed_before_def split: option.splits)

lemma compare_not_below: "\<not> compare_latest x y < 0 \<Longrightarrow> listed_before y x"
  by (auto simp: compare_latest_def listed_before_def split: option.splits)

lemma sorted_sort_insert:
  "sorted_wrt listed_before ys \<Longrightarrow> sorted_wrt listed_before (sort_insert compare_latest x ys)"
proof (induction ys)
  case Nil
  then show ?case by simp
next
  case (Cons y ys)
  show ?case
  proof (cases "compare_latest x y < 0")
    case True
    then have xy: "listed_before x y" by (rule compare_below)
    then have "\<forall>z\<in>set ys. listed_before x z"
      using Cons.prems listed_before_trans by auto
    with True xy Cons.prems show ?thesis by simp
  next
    case False
    then have "listed_before y x" by (rule compare_not_below)
    with False Cons show ?thesis by (auto simp: set_sort_insert)
  qed
qed

lemma sorted_sort_fold:
  "sorted_wrt listed_before acc \<Longrightarrow>
   sorted_wrt listed_before (foldl (\<lambda>sorted x. sort_insert compare_latest x sorted) acc xs)"
  by (induction xs arbitrary: acc) (auto simp: sorted_sort_insert)

lemma sorted_array_sort: "sorted_wrt listed_before (array_sort compare_latest xs)"
  by (simp add: array_sort_def sorted_sort_fold)

lemma ce_id_entry_of: "ce_id (entry_of row) = h_id (fst row)"
  by (simp add: entry_of_def)

lemma build_comparison_ids:
  "set (map ce_id (build_comparison rows acc)) = set (map ce_id acc) \<union> (\<lambda>row. h_id (fst row)) ` set rows"
  by (induction rows arbitrary: acc) (auto simp: ce_id_entry_of)

lemma build_comparison_distinct:
  "distinct (map ce_id acc) \<Longrightarrow> distinct (map ce_id (build_comparison rows acc))"
  by (induction rows arbitrary: acc) (auto simp: ce_id_entry_of)

lemma length_build_comparison:
  "length (build_comparison rows []) = card ((\<lambda>row. h_id (fst row)) ` set rows)"
proof -
  have "distinct (map ce_id (build_comparison rows []))"
    by (rule build_comparison_distinct) simp
  then have "card (set (map ce_id (build_comparison rows []))) = length (map ce_id (build_comparison rows []))"
    by (rule distinct_card)
  then show ?thesis by (simp only: build_comparison_ids length_map) simp
qed

lemma left_join_hotels: "(\<lambda>row. h_id (fst row)) ` set (left_join d) = h_id ` set (hotels d)"
proof -
  have "fst ` set (left_join d) = set (hotels d)"
    unfolding left_join_def
    by (auto simp: image_iff split: list.splits)
  then have "h_id ` fst ` set (left_join d) = h_id ` set (hotels d)" by simp
  then show ?thesis by (simp add: image_image)
qed

lemma where_dates_subset: "set (where_dates a b rows) \<subseteq> set rows"
  by (auto simp: where_dates_def)

lemma comparePrices_order:
  "comparePrices (Some d) checkInDate checkOutDate = Inr out \<Longrightarrow> sorted_wrt listed_before out"
  by (auto simp: comparePrices_def sorted_array_sort)

lemma comparePrices_unfiltered_length:
  assumes "distinct (map h_id (hotels d))"
    and "comparePrices (Some d) None None = Inr out"
  shows "length out = length (hotels d)"
proof -
  have "length out = card ((\<lambda>row. h_id (fst row)) ` set (left_join d))"
    using assms(2)
    by (auto simp: comparePrices_def compare_query_def truthy_def length_array_sort
        length_build_comparison)
  also have "\<dots> = card (h_id ` set (hotels d))" by (simp add: left_join_hotels)
  also have "\<dots> = length (hotels d)"
    using assms(1) by (metis distinct_card length_map set_map)
  finally show ?thesis .
qed

lemmas ev_db = left_join_def where_dates_def order_key_def truthy_def compare_query_def
  entry_of_def compare_latest_def array_sort_def comparePrices_def two_hotels_def
  empty_store_def voco_def elaf_def voco_price_def

text \<open>
  C7. The order of the output is as claimed (\<open>comparePrices_order\<close>), and without a
  date filter every hotel is in it (\<open>comparePrices_unfiltered_length\<close>). With a date
  filter the \<open>WHERE\<close> clause on the price columns removes the row
  that the left join keeps for a hotel without a matching observation, so that hotel is
  missing from the output instead of coming last: of the two hotels of \<open>two_hotels\<close>
  only one is returned, and for the one hotel of \<open>empty_store\<close> the output is empty.
\<close>

theorem comparePrices_drops_hotel:
  "length (hotels two_hotels) = 2 \<and>
   comparePrices (Some two_hotels) (Some (js ''2024-12-25'')) (Some (js ''2024-12-26'')) =
     Inr [\<lparr>ce_id = js ''hotel_2548785'', ce_hotelId = js ''2548785'', ce_name = js ''Voco Makkah'',
           ce_latestPrice = Some 250, ce_currency = Some (js ''USD''), ce_lastUpdated = Some 1001\<rparr>] \<and>
   comparePrices (Some empty_store) (Some (js ''2024-12-25'')) (Some (js ''2024-12-26'')) = Inr []"
  by (simp add: ev_db js_def)

section \<open>Properties of the routes that persist\<close>










section \<open>Properties of saveHotelPrice\<close>

lemma digits_1001: "digits_of 1001 = js ''1001''"
  by (simp add: digits_of.simps js_def)

text \<open>
  C10. On an open connection \<open>saveHotelPrice\<close> returns normally for every result and
  every behaviour of the insert: when the insert fails, the tables are unchanged, the
  failure is only a console warning, and the caller sees the same normal return. (Its only
  throw is the missing connection.)
\<close>

theorem saveHotelPrice_swallows_failure:
  "(\<exists>db' warnings. saveHotelPrice run clock (Some d) result = Inr (db', warnings)) \<and>
   (run (price_row clock result) d = Inl e \<longrightarrow>
      saveHotelPrice run clock (Some d) result =
        Inr (Some d, [js ''Failed to save hotel price: '' @ e])) \<and>
   saveHotelPrice run clock None result = Inl (js ''Database not initialized'')"
  by (cases "run (price_row clock result) d") (simp_all add: saveHotelPrice_def)

theorem saveHotelPrice_swallows_failure_witness:
  "sqlite_insert 2 (price_row 1001 voco_result) two_hotels =
     Inl (js ''SQLITE_CONSTRAINT: UNIQUE constraint failed: hotel_prices.id'') \<and>
   saveHotelPrice (sqlite_insert 2) 1001 (Some two_hotels) voco_result =
     Inr (Some two_hotels,
          [js ''Failed to save hotel price: '' @
           js ''SQLITE_CONSTRAINT: UNIQUE constraint failed: hotel_prices.id''])"
proof -
  have p: "js ''price_'' @ js ''1001'' = js ''price_1001''" by (simp add: js_def)
  have a: "sqlite_insert 2 (price_row 1001 voco_result) two_hotels =
     Inl (js ''SQLITE_CONSTRAINT: UNIQUE constraint failed: hotel_prices.id'')"
    by (simp add: sqlite_insert_def price_row_def two_hotels_def voco_price_def digits_1001 p)
  from saveHotelPrice_swallows_failure [of "sqlite_insert 2" 1001 two_hotels voco_result
      "js ''SQLITE_CONSTRAINT: UNIQUE constraint failed: hotel_prices.id''"] a
  show ?thesis by simp
qed

end
